theory Spec2Isabelle
  imports Main "HOL-Library.Word"
begin

unbundle bit_operations_syntax

section \<open>Data model of the I2C driver (i2c.h)\<close>

type_synonym u8 = "8 word"
type_synonym u16 = "16 word"
type_synonym u32 = "32 word"

text \<open>
  \<open>I2C_Module_t\<close> is a C enum with the two enumerators \<open>I2C_MODULE_1 = 1\<close> and
  \<open>I2C_MODULE_2 = 2\<close>. A C enum object can hold any integer, and the accessors of
  i2c.c have a \<open>default\<close> branch for such values, so the selector is an integer.
\<close>

type_synonym I2C_Module_t = int

definition I2C_MODULE_1 :: I2C_Module_t where "I2C_MODULE_1 = 1"
definition I2C_MODULE_2 :: I2C_Module_t where "I2C_MODULE_2 = 2"

datatype I2C_Mode_t =
  I2C_MODE_MASTER | I2C_MODE_SLAVE | I2C_MODE_SLAVE_7BIT | I2C_MODE_SLAVE_10BIT

datatype I2C_State_t =
  I2C_STATE_IDLE | I2C_STATE_BUSY | I2C_STATE_ERROR | I2C_STATE_TIMEOUT
| I2C_STATE_ADDR_NACK | I2C_STATE_DATA_NACK | I2C_STATE_ARB_LOST
| I2C_STATE_BUS_COLLISION | I2C_STATE_OVERRUN | I2C_STATE_SUCCESS

text \<open>A callback is a function pointer: \<open>None\<close> is \<open>NULL\<close>, \<open>Some k\<close> the address of
  a user function.\<close>

type_synonym I2C_Callback_t = "nat option"

record I2C_Config_t =
  module :: I2C_Module_t
  mode :: I2C_Mode_t
  speed :: u32
  slave_address :: u8
  general_call_enable :: bool
  slew_rate_control :: bool
  smbus_enable :: bool
  timeout_ms :: u16
  interrupt_enable :: bool
  callback :: I2C_Callback_t

text \<open>
  The driver keeps one status word, one busy flag, one configuration and one callback per
  bus unit (\<open>I2C1_State\<close>/\<open>I2C2_State\<close>, \<open>I2C1_Busy\<close>/\<open>I2C2_Busy\<close>, ...), and each
  unit has one block of registers starting at \<open>I2C1CON\<close> resp. \<open>I2C2CON\<close>. The pointers
  the accessors return are modelled by the unit they point into.
\<close>

datatype unit_id = UNIT1 | UNIT2

text \<open>
  Register operations of the driver, as the statements of i2c.c perform them:
  \<open>*i2c_con = v\<close>, \<open>*i2c_con |= m\<close>, \<open>*i2c_con &= m\<close>, and the assignments to the
  registers at offsets 2 (ADD), 3 (MSK), 4 (BRG) and 5 (TRN) from the base. \<open>SfrBit\<close> is an
  assignment to a named bit field outside the I2C register blocks (pins, interrupt
  controller).
\<close>

datatype reg_op =
  ConAssign u16 | ConOr u16 | ConAnd u16
| AddAssign u16 | MskAssign u16 | BrgAssign u16 | TrnAssign u16

datatype access = I2CReg unit_id reg_op | SfrBit string nat

text \<open>
  The registers are volatile: what a read returns is decided by the hardware, not by what
  the driver wrote. \<open>con_in u t\<close> is the content of unit \<open>u\<close>'s control register at the
  moment of the driver's \<open>t\<close>-th register access (likewise \<open>stat_in\<close>, \<open>rcv_in\<close> for the
  registers at offsets 1 and 6); \<open>ticks\<close> counts the accesses made so far, and \<open>oplog\<close>
  records the write operations in program order.
\<close>

record sys =
  I2C_State :: "unit_id \<Rightarrow> I2C_State_t"
  I2C_Busy :: "unit_id \<Rightarrow> bool"
  I2C_Config :: "unit_id \<Rightarrow> I2C_Config_t"
  i2c_callback :: "unit_id \<Rightarrow> I2C_Callback_t"
  con_in :: "unit_id \<Rightarrow> nat \<Rightarrow> u16"
  stat_in :: "unit_id \<Rightarrow> nat \<Rightarrow> u16"
  rcv_in :: "unit_id \<Rightarrow> nat \<Rightarrow> u16"
  ticks :: nat
  oplog :: "access list"

section \<open>Register access\<close>

definition read_con :: "unit_id \<Rightarrow> sys \<Rightarrow> u16 \<times> sys" where
  "read_con u s = (con_in s u (ticks s), s\<lparr>ticks := Suc (ticks s)\<rparr>)"

definition read_stat :: "unit_id \<Rightarrow> sys \<Rightarrow> u16 \<times> sys" where
  "read_stat u s = (stat_in s u (ticks s), s\<lparr>ticks := Suc (ticks s)\<rparr>)"

definition read_rcv :: "unit_id \<Rightarrow> sys \<Rightarrow> u16 \<times> sys" where
  "read_rcv u s = (rcv_in s u (ticks s), s\<lparr>ticks := Suc (ticks s)\<rparr>)"

text \<open>A plain assignment to a register is one access.\<close>

definition reg_write :: "unit_id \<Rightarrow> reg_op \<Rightarrow> sys \<Rightarrow> sys" where
  "reg_write u w s = s\<lparr>ticks := Suc (ticks s), oplog := oplog s @ [I2CReg u w]\<rparr>"

text \<open>\<open>*i2c_con |= m\<close> and \<open>*i2c_con &= m\<close> read the register and write it back: two
  accesses.\<close>

definition reg_modify :: "unit_id \<Rightarrow> reg_op \<Rightarrow> sys \<Rightarrow> sys" where
  "reg_modify u w s = s\<lparr>ticks := Suc (Suc (ticks s)), oplog := oplog s @ [I2CReg u w]\<rparr>"

definition sfr_write :: "string \<Rightarrow> nat \<Rightarrow> sys \<Rightarrow> sys" where
  "sfr_write name v s = s\<lparr>oplog := oplog s @ [SfrBit name v]\<rparr>"

definition set_State :: "unit_id \<Rightarrow> I2C_State_t \<Rightarrow> sys \<Rightarrow> sys" where
  "set_State u v s = s\<lparr>I2C_State := (I2C_State s)(u := v)\<rparr>"

definition set_Busy :: "unit_id \<Rightarrow> bool \<Rightarrow> sys \<Rightarrow> sys" where
  "set_Busy u v s = s\<lparr>I2C_Busy := (I2C_Busy s)(u := v)\<rparr>"

section \<open>Private functions of i2c.c\<close>

text \<open>\<open>_I2C_GetModuleBase\<close>, \<open>_I2C_GetState\<close>, \<open>_I2C_GetBusyFlag\<close>, \<open>_I2C_GetConfig\<close>
  (an Isabelle name cannot start with an underscore).\<close>

definition I2C_GetModuleBase :: "I2C_Module_t \<Rightarrow> unit_id" where
  "I2C_GetModuleBase m =
     (if m = I2C_MODULE_1 then UNIT1 else if m = I2C_MODULE_2 then UNIT2 else UNIT1)"

definition I2C_GetState :: "I2C_Module_t \<Rightarrow> unit_id" where
  "I2C_GetState m =
     (if m = I2C_MODULE_1 then UNIT1 else if m = I2C_MODULE_2 then UNIT2 else UNIT1)"

definition I2C_GetBusyFlag :: "I2C_Module_t \<Rightarrow> unit_id" where
  "I2C_GetBusyFlag m =
     (if m = I2C_MODULE_1 then UNIT1 else if m = I2C_MODULE_2 then UNIT2 else UNIT1)"

definition I2C_GetConfig :: "I2C_Module_t \<Rightarrow> unit_id" where
  "I2C_GetConfig m =
     (if m = I2C_MODULE_1 then UNIT1 else if m = I2C_MODULE_2 then UNIT2 else UNIT1)"

text \<open>\<open>_I2C_CalculateBRG\<close>: all arithmetic is on \<open>uint32_t\<close>, so \<open>2 * desired_speed\<close>
  and the subtraction wrap modulo \<open>2^32\<close>.\<close>

definition I2C_CalculateBRG :: "u32 \<Rightarrow> u32 \<Rightarrow> u16" where
  "I2C_CalculateBRG fcy desired_speed =
     (let brg = (fcy div (2 * desired_speed)) - 2;
          brg = (if brg > 0xFFFF then 0xFFFF else brg);
          brg = (if brg < 2 then 2 else brg)
      in ucast brg)"

text \<open>
  The loop of \<open>_I2C_WaitCondition\<close>. One evaluation of the loop condition reads the control
  register; only if a pending bit is set is \<open>timeout_counter--\<close> evaluated, which yields the
  old value and decrements (wrapping from 0 to \<open>0xFFFFFFFF\<close>). The body reads the register
  once for the overrun test and once more for the collision test. After the loop the
  counter is compared with 0.
\<close>

function wait_loop :: "unit_id \<Rightarrow> unit_id \<Rightarrow> u32 \<Rightarrow> sys \<Rightarrow> bool \<times> sys" where
  "wait_loop i2c_con st timeout_counter s =
     (case read_con i2c_con s of (v1, s1) \<Rightarrow>
        if v1 AND 0x1F \<noteq> 0 \<and> timeout_counter \<noteq> 0 then
          (case read_con i2c_con s1 of (v2, s2) \<Rightarrow>
             if v2 AND push_bit 9 1 \<noteq> 0 then (False, set_State st I2C_STATE_OVERRUN s2)
             else
               (case read_con i2c_con s2 of (v3, s3) \<Rightarrow>
                  if v3 AND push_bit 8 1 \<noteq> 0
                  then (False, set_State st I2C_STATE_BUS_COLLISION s3)
                  else wait_loop i2c_con st (timeout_counter - 1) s3))
        else
          (let timeout_counter =
                 (if v1 AND 0x1F \<noteq> 0 then timeout_counter - 1 else timeout_counter)
           in if timeout_counter = 0 then (False, set_State st I2C_STATE_TIMEOUT s1)
              else (True, s1)))"
  by pat_completeness auto
termination
  by (relation "measure (\<lambda>(c, st, n, s). unat n)") (auto simp: unat_minus_one unat_gt_0)

declare wait_loop.simps [simp del]

text \<open>\<open>_I2C_WaitCondition\<close>. \<open>timeout_ms * 1000\<close> multiplies an \<open>unsigned int\<close> by an
  \<open>int\<close>; on the 16-bit target (XC16, \<open>xc.h\<close>) both are 16 bits wide, so the product is
  taken modulo \<open>2^16\<close> before it is widened to \<open>uint32_t\<close>.\<close>

definition I2C_WaitCondition :: "I2C_Module_t \<Rightarrow> u16 \<Rightarrow> sys \<Rightarrow> bool \<times> sys" where
  "I2C_WaitCondition m timeout s =
     wait_loop (I2C_GetModuleBase m) (I2C_GetState m) (ucast (timeout * 1000)) s"

text \<open>\<open>_I2C_ConfigurePins\<close>: the switch has no \<open>default\<close>, so any other selector does
  nothing.\<close>

definition I2C_ConfigurePins :: "I2C_Module_t \<Rightarrow> sys \<Rightarrow> sys" where
  "I2C_ConfigurePins m s =
     (if m = I2C_MODULE_1 then
        sfr_write ''ODCONCbits.ODCC4'' 1 (sfr_write ''ODCONCbits.ODCC3'' 1
          (sfr_write ''TRISCbits.TRISC4'' 1 (sfr_write ''TRISCbits.TRISC3'' 1
            (sfr_write ''ANSELCbits.ANSC4'' 0 (sfr_write ''ANSELCbits.ANSC3'' 0 s)))))
      else if m = I2C_MODULE_2 then
        sfr_write ''ODCONGbits.ODCG3'' 1 (sfr_write ''ODCONGbits.ODCG2'' 1
          (sfr_write ''TRISGbits.TRISG3'' 1 (sfr_write ''TRISGbits.TRISG2'' 1
            (sfr_write ''ANSELGbits.ANSG3'' 0 (sfr_write ''ANSELGbits.ANSG2'' 0 s)))))
      else s)"

section \<open>Public functions of i2c.c\<close>

definition I2C_SetCallback :: "I2C_Module_t \<Rightarrow> I2C_Callback_t \<Rightarrow> sys \<Rightarrow> sys" where
  "I2C_SetCallback m cb s =
     (if m = I2C_MODULE_1 then s\<lparr>i2c_callback := (i2c_callback s)(UNIT1 := cb)\<rparr>
      else if m = I2C_MODULE_2 then s\<lparr>i2c_callback := (i2c_callback s)(UNIT2 := cb)\<rparr>
      else s)"

text \<open>\<open>I2C_Init\<close>; \<open>None\<close> is the \<open>NULL\<close> configuration pointer.\<close>

definition I2C_Init :: "I2C_Config_t option \<Rightarrow> sys \<Rightarrow> sys" where
  "I2C_Init config s =
     (case config of
        None \<Rightarrow> s
      | Some c \<Rightarrow>
          let s = s\<lparr>I2C_Config := (I2C_Config s)(I2C_GetConfig (module c) := c)\<rparr>;
              s = I2C_ConfigurePins (module c) s;
              i2c_con = I2C_GetModuleBase (module c);
              s = reg_write i2c_con (ConAssign 0x0000) s;
              s = reg_write i2c_con (BrgAssign (I2C_CalculateBRG 40000000 (speed c))) s;
              s = (case mode c of
                     I2C_MODE_MASTER \<Rightarrow> reg_write i2c_con (ConAssign 0x8000) s
                   | I2C_MODE_SLAVE_7BIT \<Rightarrow>
                       reg_modify i2c_con (ConOr 0x4000)
                         (reg_write i2c_con (ConAssign 0x8000)
                           (reg_write i2c_con (MskAssign 0x0000)
                             (reg_write i2c_con
                                (AddAssign (push_bit 1 (ucast (slave_address c)))) s)))
                   | I2C_MODE_SLAVE_10BIT \<Rightarrow>
                       reg_modify i2c_con (ConOr 0x4400)
                         (reg_write i2c_con (ConAssign 0x8000)
                           (reg_write i2c_con (AddAssign (ucast (slave_address c))) s))
                   | I2C_MODE_SLAVE \<Rightarrow> s);
              s = (if smbus_enable c then reg_modify i2c_con (ConOr 0x0020) s else s);
              s = (if slew_rate_control c then reg_modify i2c_con (ConOr 0x0040) s
                   else reg_modify i2c_con (ConOr 0x0080) s);
              s = (if interrupt_enable c then
                     (if module c = I2C_MODULE_1 then
                        sfr_write ''IPC7bits.I2C1BIP'' 4 (sfr_write ''IEC1bits.I2C1BIE'' 1
                          (sfr_write ''IFS1bits.I2C1BIF'' 0 s))
                      else if module c = I2C_MODULE_2 then
                        sfr_write ''IPC14bits.I2C2BIP'' 4 (sfr_write ''IEC3bits.I2C2BIE'' 1
                          (sfr_write ''IFS3bits.I2C2BIF'' 0 s))
                      else s)
                   else s);
              s = set_State (I2C_GetState (module c)) I2C_STATE_IDLE s;
              s = set_Busy (I2C_GetBusyFlag (module c)) False s
          in I2C_SetCallback (module c) (callback c) s)"

definition I2C_Deinit :: "I2C_Module_t \<Rightarrow> sys \<Rightarrow> sys" where
  "I2C_Deinit m s =
     (let i2c_con = I2C_GetModuleBase m;
          s = reg_write i2c_con (ConAssign 0x0000) s;
          s = (if m = I2C_MODULE_1 then sfr_write ''IEC1bits.I2C1BIE'' 0 s
               else if m = I2C_MODULE_2 then sfr_write ''IEC3bits.I2C2BIE'' 0 s
               else s);
          s = set_State (I2C_GetState m) I2C_STATE_IDLE s
      in set_Busy (I2C_GetBusyFlag m) False s)"

definition I2C_Start :: "I2C_Module_t \<Rightarrow> sys \<Rightarrow> bool \<times> sys" where
  "I2C_Start m s =
     (let i2c_con = I2C_GetModuleBase m; busy = I2C_GetBusyFlag m
      in if I2C_Busy s busy then (False, s)
         else
           (let s = set_Busy busy True s;
                s = set_State (I2C_GetState m) I2C_STATE_BUSY s;
                s = reg_modify i2c_con (ConOr 0x0001) s
            in case I2C_WaitCondition m (timeout_ms (I2C_Config s (I2C_GetConfig m))) s of
                 (ok, s) \<Rightarrow> if \<not> ok then (False, set_Busy busy False s) else (True, s)))"

definition I2C_Restart :: "I2C_Module_t \<Rightarrow> sys \<Rightarrow> bool \<times> sys" where
  "I2C_Restart m s =
     (let i2c_con = I2C_GetModuleBase m;
          s = reg_modify i2c_con (ConOr 0x0002) s
      in I2C_WaitCondition m (timeout_ms (I2C_Config s (I2C_GetConfig m))) s)"

definition I2C_Stop :: "I2C_Module_t \<Rightarrow> sys \<Rightarrow> bool \<times> sys" where
  "I2C_Stop m s =
     (let i2c_con = I2C_GetModuleBase m; busy = I2C_GetBusyFlag m;
          s = reg_modify i2c_con (ConOr 0x0004) s
      in case I2C_WaitCondition m (timeout_ms (I2C_Config s (I2C_GetConfig m))) s of
           (ok, s) \<Rightarrow>
             if \<not> ok then (False, s)
             else (True, set_State (I2C_GetState m) I2C_STATE_IDLE (set_Busy busy False s)))"

definition I2C_WriteByte :: "I2C_Module_t \<Rightarrow> u8 \<Rightarrow> sys \<Rightarrow> bool \<times> sys" where
  "I2C_WriteByte m data s =
     (let i2c_con = I2C_GetModuleBase m;
          s = reg_write i2c_con (TrnAssign (ucast data)) s;
          s = reg_modify i2c_con (ConOr 0x0008) s
      in case I2C_WaitCondition m (timeout_ms (I2C_Config s (I2C_GetConfig m))) s of
           (ok, s) \<Rightarrow>
             if \<not> ok then (False, s)
             else
               (case read_con i2c_con s of (v, s) \<Rightarrow>
                  if v AND push_bit 15 1 \<noteq> 0
                  then (False, set_State (I2C_GetState m) I2C_STATE_DATA_NACK s)
                  else (True, s)))"

text \<open>\<open>I2C_ReadByte\<close>: the result of the wait is discarded. \<open>~(1 << 4)\<close> is \<open>0xFFEF\<close> in
  the 16-bit register.\<close>

definition I2C_ReadByte :: "I2C_Module_t \<Rightarrow> bool \<Rightarrow> sys \<Rightarrow> u8 \<times> sys" where
  "I2C_ReadByte m ack s =
     (let i2c_con = I2C_GetModuleBase m;
          s = (if ack then reg_modify i2c_con (ConAnd (NOT (push_bit 4 1))) s
               else reg_modify i2c_con (ConOr (push_bit 4 1)) s);
          s = reg_modify i2c_con (ConOr 0x0008) s;
          s = snd (I2C_WaitCondition m (timeout_ms (I2C_Config s (I2C_GetConfig m))) s)
      in case read_rcv i2c_con s of (v, s) \<Rightarrow> (ucast (v AND 0x00FF), s))"

text \<open>
  A \<open>uint8_t *\<close> argument is \<open>None\<close> for \<open>NULL\<close>, and otherwise the bytes stored from
  that address on, by index. The \<open>for\<close> loop of \<open>I2C_WriteData\<close> with its counter \<open>i\<close>,
  including the final \<open>return I2C_Stop(module)\<close>:
\<close>

function WriteData_loop ::
  "I2C_Module_t \<Rightarrow> (nat \<Rightarrow> u8) \<Rightarrow> u8 \<Rightarrow> u8 \<Rightarrow> sys \<Rightarrow> bool \<times> sys" where
  "WriteData_loop m data len i s =
     (if i < len then
        (case I2C_WriteByte m (data (unat i)) s of
           (ok, s) \<Rightarrow>
             if \<not> ok then (False, snd (I2C_Stop m s))
             else WriteData_loop m data len (i + 1) s)
      else I2C_Stop m s)"
  by pat_completeness auto
termination
  by (relation "measure (\<lambda>(m, data, len, i, s). unat len - unat i)")
     (simp, (simp, unat_arith)+)

declare WriteData_loop.simps [simp del]

definition I2C_WriteData ::
  "I2C_Module_t \<Rightarrow> u8 \<Rightarrow> (nat \<Rightarrow> u8) option \<Rightarrow> u8 \<Rightarrow> sys \<Rightarrow> bool \<times> sys" where
  "I2C_WriteData m address data len s =
     (if len = 0 \<or> data = None then (False, s)
      else
        (case I2C_Start m s of
           (ok, s) \<Rightarrow>
             if \<not> ok then (False, s)
             else
               (case I2C_WriteByte m (push_bit 1 address OR 0x00) s of
                  (ok, s) \<Rightarrow>
                    if \<not> ok then (False, snd (I2C_Stop m s))
                    else WriteData_loop m (the data) len 0 s)))"

text \<open>The \<open>for\<close> loop of \<open>I2C_ReadData\<close>. In \<open>i < length - 1\<close> both operands are promoted
  to \<open>int\<close>, so the subtraction does not wrap.\<close>

function ReadData_loop ::
  "I2C_Module_t \<Rightarrow> u8 \<Rightarrow> u8 \<Rightarrow> (nat \<Rightarrow> u8) \<Rightarrow> sys \<Rightarrow> (nat \<Rightarrow> u8) \<times> sys" where
  "ReadData_loop m len i buffer s =
     (if i < len then
        (let ack = (uint i < uint len - 1)
         in case I2C_ReadByte m ack s of
              (b, s) \<Rightarrow> ReadData_loop m len (i + 1) (buffer(unat i := b)) s)
      else (buffer, s))"
  by pat_completeness auto
termination
  by (relation "measure (\<lambda>(m, len, i, buffer, s). unat len - unat i)")
     (simp, (simp, unat_arith)+)

declare ReadData_loop.simps [simp del]

text \<open>\<open>I2C_ReadData\<close> returns its result together with the caller's buffer.\<close>

definition I2C_ReadData ::
  "I2C_Module_t \<Rightarrow> u8 \<Rightarrow> (nat \<Rightarrow> u8) option \<Rightarrow> u8 \<Rightarrow> sys
     \<Rightarrow> bool \<times> (nat \<Rightarrow> u8) option \<times> sys" where
  "I2C_ReadData m address buffer len s =
     (if len = 0 \<or> buffer = None then (False, buffer, s)
      else
        (case I2C_Start m s of
           (ok, s) \<Rightarrow>
             if \<not> ok then (False, buffer, s)
             else
               (case I2C_WriteByte m (push_bit 1 address OR 0x01) s of
                  (ok, s) \<Rightarrow>
                    if \<not> ok then (False, buffer, snd (I2C_Stop m s))
                    else
                      (case ReadData_loop m len 0 (the buffer) s of
                         (buf, s) \<Rightarrow>
                           (case I2C_Stop m s of (r, s) \<Rightarrow> (r, Some buf, s))))))"

definition I2C_WriteRegister :: "I2C_Module_t \<Rightarrow> u8 \<Rightarrow> u8 \<Rightarrow> u8 \<Rightarrow> sys \<Rightarrow> bool \<times> sys" where
  "I2C_WriteRegister m dev_addr reg_addr data s =
     I2C_WriteData m dev_addr (Some (\<lambda>i. [reg_addr, data] ! i)) 2 s"

definition I2C_ReadRegister :: "I2C_Module_t \<Rightarrow> u8 \<Rightarrow> u8 \<Rightarrow> sys \<Rightarrow> u8 \<times> sys" where
  "I2C_ReadRegister m dev_addr reg_addr s =
     (let val = (\<lambda>i. [0] ! i)
      in case I2C_WriteData m dev_addr (Some (\<lambda>i. [reg_addr] ! i)) 1 s of
           (ok, s) \<Rightarrow>
             if \<not> ok then (0, s)
             else
               (case I2C_ReadData m dev_addr (Some val) 1 s of
                  (r, buf, s) \<Rightarrow> (the buf 0, s)))"

definition I2C_CheckDevice :: "I2C_Module_t \<Rightarrow> u8 \<Rightarrow> sys \<Rightarrow> bool \<times> sys" where
  "I2C_CheckDevice m address s =
     (case I2C_Start m s of
        (ok, s) \<Rightarrow>
          if \<not> ok then (False, s)
          else
            (case I2C_WriteByte m (push_bit 1 address OR 0x00) s of
               (success, s) \<Rightarrow> (success, snd (I2C_Stop m s))))"

text \<open>The loop of \<open>I2C_ScanBus\<close> over \<open>addr\<close> from 1 while \<open>addr < 127\<close>.\<close>

function ScanBus_loop ::
  "I2C_Module_t \<Rightarrow> (nat \<Rightarrow> u8) option \<Rightarrow> u8 \<Rightarrow> u8 \<Rightarrow> u8 \<Rightarrow> sys
     \<Rightarrow> u8 \<times> (nat \<Rightarrow> u8) option \<times> sys" where
  "ScanBus_loop m devices max_devices addr found s =
     (if addr < 127 then
        (case I2C_CheckDevice m addr s of
           (present, s) \<Rightarrow>
             if present then
               ScanBus_loop m
                 (if devices \<noteq> None \<and> found < max_devices
                  then Some ((the devices)(unat found := addr)) else devices)
                 max_devices (addr + 1) (found + 1) s
             else ScanBus_loop m devices max_devices (addr + 1) found s)
      else (found, devices, s))"
  by pat_completeness auto
termination
  by (relation "measure (\<lambda>(m, devices, max_devices, addr, found, s). 127 - unat addr)")
     (simp_all add: word_less_nat_alt unat_word_ariths)

declare ScanBus_loop.simps [simp del]

definition I2C_ScanBus ::
  "I2C_Module_t \<Rightarrow> (nat \<Rightarrow> u8) option \<Rightarrow> u8 \<Rightarrow> sys \<Rightarrow> bool \<times> (nat \<Rightarrow> u8) option \<times> sys" where
  "I2C_ScanBus m devices max_devices s =
     (case ScanBus_loop m devices max_devices 1 0 s of
        (found, devices, s) \<Rightarrow> (found > 0, devices, s))"

text \<open>The loop of \<open>I2C_WaitIdle\<close> on the status register (offset 1), and the function.\<close>

function WaitIdle_loop :: "unit_id \<Rightarrow> u32 \<Rightarrow> sys \<Rightarrow> bool \<times> sys" where
  "WaitIdle_loop u timeout_counter s =
     (case read_stat u s of (v, s1) \<Rightarrow>
        if v AND push_bit 14 1 \<noteq> 0 \<and> timeout_counter \<noteq> 0
        then WaitIdle_loop u (timeout_counter - 1) s1
        else
          (let timeout_counter =
                 (if v AND push_bit 14 1 \<noteq> 0 then timeout_counter - 1 else timeout_counter)
           in (timeout_counter > 0, s1)))"
  by pat_completeness auto
termination
  by (relation "measure (\<lambda>(u, n, s). unat n)") (auto simp: unat_minus_one unat_gt_0)

declare WaitIdle_loop.simps [simp del]

definition I2C_WaitIdle :: "I2C_Module_t \<Rightarrow> u16 \<Rightarrow> sys \<Rightarrow> bool \<times> sys" where
  "I2C_WaitIdle m timeout s = WaitIdle_loop (I2C_GetModuleBase m) (ucast (timeout * 1000)) s"

definition I2C_GetLastError :: "I2C_Module_t \<Rightarrow> sys \<Rightarrow> I2C_State_t" where
  "I2C_GetLastError m s = I2C_State s (I2C_GetState m)"

definition I2C_ClearErrors :: "I2C_Module_t \<Rightarrow> sys \<Rightarrow> sys" where
  "I2C_ClearErrors m s =
     (let s = set_State (I2C_GetState m) I2C_STATE_IDLE s;
          i2c_con = I2C_GetModuleBase m
      in reg_modify i2c_con (ConAnd (NOT (push_bit 9 1 OR push_bit 8 1))) s)"

definition I2C_IsBusy :: "I2C_Module_t \<Rightarrow> sys \<Rightarrow> bool" where
  "I2C_IsBusy m s = I2C_Busy s (I2C_GetBusyFlag m)"

section \<open>Transactions as the specification words them\<close>

text \<open>
  The byte phase of a write transaction: the bytes are handed to \<open>I2C_WriteByte\<close> one after
  the other, up to and including the first one that fails. The result says whether all of
  them succeeded.
\<close>

fun send_bytes :: "I2C_Module_t \<Rightarrow> u8 list \<Rightarrow> sys \<Rightarrow> bool \<times> sys" where
  "send_bytes m [] s = (True, s)"
| "send_bytes m (b # bs) s =
     (case I2C_WriteByte m b s of (ok, s') \<Rightarrow> if ok then send_bytes m bs s' else (False, s'))"

text \<open>
  The byte phase of \<open>I2C_WriteData\<close> after a successful \<open>I2C_Start\<close>: the address byte
  with the write bit, then the \<open>len\<close> data bytes. Its result is the state in which the
  trailing stop is issued, and whether every byte was sent and acknowledged.
\<close>

definition WriteData_bytes ::
  "I2C_Module_t \<Rightarrow> u8 \<Rightarrow> (nat \<Rightarrow> u8) \<Rightarrow> u8 \<Rightarrow> sys \<Rightarrow> bool \<times> sys" where
  "WriteData_bytes m address data len s =
     send_bytes m ((push_bit 1 address OR 0x00) # map data [0..<unat len])
       (snd (I2C_Start m s))"

text \<open>The status codes that the statements of i2c.c assign, and the relation between two
  states in which each unit's status is either unchanged or one of these codes.\<close>

definition written_codes :: "I2C_State_t set" where
  "written_codes =
     {I2C_STATE_IDLE, I2C_STATE_BUSY, I2C_STATE_TIMEOUT, I2C_STATE_DATA_NACK,
      I2C_STATE_BUS_COLLISION, I2C_STATE_OVERRUN}"

definition status_step :: "sys \<Rightarrow> sys \<Rightarrow> bool" where
  "status_step s s' \<longleftrightarrow>
     (I2C_State s' UNIT1 = I2C_State s UNIT1 \<or> I2C_State s' UNIT1 \<in> written_codes) \<and>
     (I2C_State s' UNIT2 = I2C_State s UNIT2 \<or> I2C_State s' UNIT2 \<in> written_codes)"

text \<open>
  \<open>nacked m b s\<close>: the hardware answers the byte \<open>b\<close>, sent on the selected unit from
  state \<open>s\<close>, with a negative acknowledge. That is, the wait that follows loading the
  transmit register and setting the transfer bit succeeds, and the next read of the control
  register shows bit 15 (the acknowledge status as i2c.c reads it) set.
\<close>

definition nacked :: "I2C_Module_t \<Rightarrow> u8 \<Rightarrow> sys \<Rightarrow> bool" where
  "nacked m b s \<longleftrightarrow>
     fst (I2C_WaitCondition m (timeout_ms (I2C_Config s (I2C_GetConfig m)))
            (reg_modify (I2C_GetModuleBase m) (ConOr 0x0008)
               (reg_write (I2C_GetModuleBase m) (TrnAssign (ucast b)) s))) \<and>
     con_in s (I2C_GetModuleBase m)
       (ticks (snd (I2C_WaitCondition m (timeout_ms (I2C_Config s (I2C_GetConfig m)))
            (reg_modify (I2C_GetModuleBase m) (ConOr 0x0008)
               (reg_write (I2C_GetModuleBase m) (TrnAssign (ucast b)) s))))) AND 0x8000 \<noteq> 0"

text \<open>The register operations one call of \<open>I2C_ReadByte\<close> issues on unit \<open>u\<close>: the
  acknowledge-direction bit is cleared (acknowledge) or set (negative acknowledge), then
  the receive-enable bit is set.\<close>

definition ReadByte_ops :: "unit_id \<Rightarrow> bool \<Rightarrow> access list" where
  "ReadByte_ops u ack =
     [I2CReg u (if ack then ConAnd 0xFFEF else ConOr 0x0010), I2CReg u (ConOr 0x0008)]"

section \<open>Sequences of driver calls\<close>

text \<open>
  The calls a client can make that write driver state or registers. \<open>I2C_GetLastError\<close>
  and \<open>I2C_IsBusy\<close> only read; \<open>I2C_PrintConfig\<close> prints; \<open>I2C_ISR_Handler\<close> clears an
  interrupt flag and runs the client's callback.
\<close>

datatype api_call =
  Call_Init "I2C_Config_t option"
| Call_Deinit I2C_Module_t
| Call_Start I2C_Module_t
| Call_Restart I2C_Module_t
| Call_Stop I2C_Module_t
| Call_WriteByte I2C_Module_t u8
| Call_ReadByte I2C_Module_t bool
| Call_WriteData I2C_Module_t u8 "(nat \<Rightarrow> u8) option" u8
| Call_ReadData I2C_Module_t u8 "(nat \<Rightarrow> u8) option" u8
| Call_WriteRegister I2C_Module_t u8 u8 u8
| Call_ReadRegister I2C_Module_t u8 u8
| Call_ScanBus I2C_Module_t "(nat \<Rightarrow> u8) option" u8
| Call_CheckDevice I2C_Module_t u8
| Call_SetCallback I2C_Module_t I2C_Callback_t
| Call_WaitIdle I2C_Module_t u16
| Call_ClearErrors I2C_Module_t

fun call :: "api_call \<Rightarrow> sys \<Rightarrow> sys" where
  "call (Call_Init config) s = I2C_Init config s"
| "call (Call_Deinit m) s = I2C_Deinit m s"
| "call (Call_Start m) s = snd (I2C_Start m s)"
| "call (Call_Restart m) s = snd (I2C_Restart m s)"
| "call (Call_Stop m) s = snd (I2C_Stop m s)"
| "call (Call_WriteByte m data) s = snd (I2C_WriteByte m data s)"
| "call (Call_ReadByte m ack) s = snd (I2C_ReadByte m ack s)"
| "call (Call_WriteData m address data len) s = snd (I2C_WriteData m address data len s)"
| "call (Call_ReadData m address buffer len) s =
     snd (snd (I2C_ReadData m address buffer len s))"
| "call (Call_WriteRegister m dev_addr reg_addr data) s =
     snd (I2C_WriteRegister m dev_addr reg_addr data s)"
| "call (Call_ReadRegister m dev_addr reg_addr) s = snd (I2C_ReadRegister m dev_addr reg_addr s)"
| "call (Call_ScanBus m devices max_devices) s = snd (snd (I2C_ScanBus m devices max_devices s))"
| "call (Call_CheckDevice m address) s = snd (I2C_CheckDevice m address s)"
| "call (Call_SetCallback m cb) s = I2C_SetCallback m cb s"
| "call (Call_WaitIdle m timeout) s = snd (I2C_WaitIdle m timeout s)"
| "call (Call_ClearErrors m) s = I2C_ClearErrors m s"

fun run :: "api_call list \<Rightarrow> sys \<Rightarrow> sys" where
  "run [] s = s"
| "run (c # cs) s = run cs (call c s)"

section \<open>Program start and sample configurations\<close>

text \<open>The globals of i2c.c as the C start-up code leaves them: both status words
  \<open>I2C_STATE_IDLE\<close>, both busy flags \<open>false\<close>, the configurations and callbacks zeroed.
  The three arguments are the behaviour of the hardware registers.\<close>

definition zero_Config :: I2C_Config_t where
  "zero_Config =
     \<lparr>module = 0, mode = I2C_MODE_MASTER, speed = 0, slave_address = 0,
      general_call_enable = False, slew_rate_control = False, smbus_enable = False,
      timeout_ms = 0, interrupt_enable = False, callback = None\<rparr>"

definition power_on ::
  "(unit_id \<Rightarrow> nat \<Rightarrow> u16) \<Rightarrow> (unit_id \<Rightarrow> nat \<Rightarrow> u16) \<Rightarrow> (unit_id \<Rightarrow> nat \<Rightarrow> u16) \<Rightarrow> sys" where
  "power_on con stat rcv =
     \<lparr>I2C_State = (\<lambda>u. I2C_STATE_IDLE), I2C_Busy = (\<lambda>u. False),
      I2C_Config = (\<lambda>u. zero_Config), i2c_callback = (\<lambda>u. None),
      con_in = con, stat_in = stat, rcv_in = rcv, ticks = 0, oplog = []\<rparr>"

text \<open>The macro \<open>I2C_CONFIG_DEFAULT_MASTER\<close> of i2c.h.\<close>

definition I2C_CONFIG_DEFAULT_MASTER :: I2C_Config_t where
  "I2C_CONFIG_DEFAULT_MASTER =
     \<lparr>module = I2C_MODULE_1, mode = I2C_MODE_MASTER, speed = 100000, slave_address = 0x00,
      general_call_enable = False, slew_rate_control = True, smbus_enable = False,
      timeout_ms = 1000, interrupt_enable = False, callback = None\<rparr>"

text \<open>Unit 1 initialised with the default master configuration on the given hardware.\<close>

definition master_on :: "sys \<Rightarrow> sys" where
  "master_on hw = I2C_Init (Some I2C_CONFIG_DEFAULT_MASTER) hw"

text \<open>Hardware on which every operation completes at once: the control register always
  reads 0 (nothing pending, no error flag, acknowledge received).\<close>

definition idle_bus :: sys where
  "idle_bus = power_on (\<lambda>u t. 0) (\<lambda>u t. 0) (\<lambda>u t. 0)"

text \<open>Hardware on which the start condition never completes: the control register always
  reads \<open>0x0001\<close> (SEN still set, no error flag).\<close>

definition stuck_bus :: sys where
  "stuck_bus = power_on (\<lambda>u t. 0x0001) (\<lambda>u t. 0) (\<lambda>u t. 0)"

text \<open>Hardware whose control register reads \<open>0x0001\<close> (SEN pending) up to access 9
  and \<open>0x0100\<close> from access 10 on: the collision flag is set and nothing is pending any
  more.\<close>

definition collided_bus :: sys where
  "collided_bus = power_on (\<lambda>u t. if t < 10 then 0x0001 else 0x0100) (\<lambda>u t. 0) (\<lambda>u t. 0)"

text \<open>Hardware whose control register reads \<open>0x0001\<close> (SEN pending) except at access 12,
  where it reads \<open>0x0100\<close>: the pending bit has cleared and the collision flag is set.\<close>

definition late_collision_bus :: sys where
  "late_collision_bus = power_on (\<lambda>u t. if t = 12 then 0x0100 else 0x0001) (\<lambda>u t. 0) (\<lambda>u t. 0)"


text \<open>Hardware whose control register reads 0 except at access 12, where it reads
  \<open>0x8000\<close>: the byte has been sent and was not acknowledged.\<close>

definition nack_bus :: sys where
  "nack_bus = power_on (\<lambda>u t. if t = 12 then 0x8000 else 0) (\<lambda>u t. 0) (\<lambda>u t. 0)"

text \<open>Hardware whose control register reads 0 up to access 19 and \<open>0x0204\<close> (stop
  pending, overrun flag set) from access 20 on.\<close>

definition stop_fails_bus :: sys where
  "stop_fails_bus = power_on (\<lambda>u t. if 20 \<le> t then 0x0204 else 0) (\<lambda>u t. 0) (\<lambda>u t. 0)"

text \<open>
  \<open>spinning s u j\<close>: counted from state \<open>s\<close>, the \<open>j\<close>-th pass through the loop of
  \<open>_I2C_WaitCondition\<close> sees a pending bit in the loop condition and neither the overrun
  nor the collision bit in the body (three reads per pass).
\<close>

definition spinning :: "sys \<Rightarrow> unit_id \<Rightarrow> nat \<Rightarrow> bool" where
  "spinning s u j \<longleftrightarrow>
     con_in s u (ticks s + 3 * j) AND 0x1F \<noteq> 0 \<and>
     con_in s u (ticks s + 3 * j + 1) AND 0x200 = 0 \<and>
     con_in s u (ticks s + 3 * j + 2) AND 0x100 = 0"

section \<open>The divider\<close>

text \<open>What \<open>_I2C_CalculateBRG\<close> returns for a speed between 1 and \<open>2^31 - 1\<close>, in terms
  of the quotient \<open>q = fcy / (2 * desired_speed)\<close>: the exact value \<open>q - 2\<close> when that
  lies between 2 and 65535, 2 when it is 0 or 1, 65535 when it is larger than 65535, and
  also 65535 when \<open>q\<close> is 0 or 1, where the unsigned subtraction wraps.\<close>

lemma CalculateBRG_value:
  assumes s: "0 < unat desired_speed" "unat desired_speed < 2 ^ 31"
    and q: "q = unat fcy div (2 * unat desired_speed)"
  shows "unat (I2C_CalculateBRG fcy desired_speed) =
           (if q < 2 then 65535 else if q < 4 then 2 else if q \<le> 65537 then q - 2 else 65535)"
proof -
  have d: "unat (2 * desired_speed) = 2 * unat desired_speed"
    using s(2) by (simp add: unat_word_ariths)
  have qd: "unat (fcy div (2 * desired_speed)) = q"
    by (simp add: q unat_div d)
  have "unat (fcy div (2 * desired_speed)) < 2 ^ LENGTH(32)" by (rule unsigned_less)
  then have ql: "q < 2 ^ 32" using qd by simp
  let ?b = "fcy div (2 * desired_speed) - 2"
  have b: "unat ?b = (if 2 \<le> q then q - 2 else q + 2 ^ 32 - 2)"
    using qd ql by (auto simp: unat_sub_if_size word_size word_le_nat_alt)
  show ?thesis
    using b ql
    by (auto simp: I2C_CalculateBRG_def Let_def word_less_nat_alt unsigned_ucast_eq take_bit_nat_eq_self)
qed

section \<open>The wait loop\<close>

lemma wait_loop_exit:
  "con_in s u (ticks s) AND 0x1F = 0 \<Longrightarrow>
   wait_loop u st c s =
     (if c = 0 then (False, set_State st I2C_STATE_TIMEOUT (s\<lparr>ticks := Suc (ticks s)\<rparr>))
      else (True, s\<lparr>ticks := Suc (ticks s)\<rparr>))"
  by (subst wait_loop.simps) (simp add: read_con_def)

lemma wait_loop_exhausted:
  "con_in s u (ticks s) AND 0x1F \<noteq> 0 \<Longrightarrow>
   wait_loop u st 0 s = (True, s\<lparr>ticks := Suc (ticks s)\<rparr>)"
  by (subst wait_loop.simps) (simp add: read_con_def)

lemma wait_loop_step:
  "con_in s u (ticks s) AND 0x1F \<noteq> 0 \<Longrightarrow> c \<noteq> 0 \<Longrightarrow>
   con_in s u (ticks s + 1) AND 0x200 = 0 \<Longrightarrow>
   con_in s u (ticks s + 2) AND 0x100 = 0 \<Longrightarrow>
   wait_loop u st c s = wait_loop u st (c - 1) (s\<lparr>ticks := ticks s + 3\<rparr>)"
  by (subst wait_loop.simps) (simp add: read_con_def numeral_3_eq_3)

lemma wait_loop_overrun:
  "con_in s u (ticks s) AND 0x1F \<noteq> 0 \<Longrightarrow> c \<noteq> 0 \<Longrightarrow>
   con_in s u (ticks s + 1) AND 0x200 \<noteq> 0 \<Longrightarrow>
   wait_loop u st c s = (False, set_State st I2C_STATE_OVERRUN (s\<lparr>ticks := ticks s + 2\<rparr>))"
  by (subst wait_loop.simps) (simp add: read_con_def numeral_2_eq_2)

lemma wait_loop_collision:
  "con_in s u (ticks s) AND 0x1F \<noteq> 0 \<Longrightarrow> c \<noteq> 0 \<Longrightarrow>
   con_in s u (ticks s + 1) AND 0x200 = 0 \<Longrightarrow>
   con_in s u (ticks s + 2) AND 0x100 \<noteq> 0 \<Longrightarrow>
   wait_loop u st c s =
     (False, set_State st I2C_STATE_BUS_COLLISION (s\<lparr>ticks := ticks s + 3\<rparr>))"
  by (subst wait_loop.simps) (simp add: read_con_def numeral_3_eq_3)

text \<open>\<open>k\<close> passes without an error flag only count the counter down.\<close>

lemma wait_loop_spin:
  "(\<forall>j<k. spinning s u j) \<Longrightarrow> k \<le> unat c \<Longrightarrow>
   wait_loop u st c s = wait_loop u st (c - of_nat k) (s\<lparr>ticks := ticks s + 3 * k\<rparr>)"
proof (induction k arbitrary: c s)
  case 0
  then show ?case by simp
next
  case (Suc k)
  have c0: "c \<noteq> 0" using Suc.prems(2) by auto
  have s0: "spinning s u 0" using Suc.prems(1) by blast
  let ?s = "s\<lparr>ticks := ticks s + 3\<rparr>"
  have step: "wait_loop u st c s = wait_loop u st (c - 1) ?s"
    using s0 c0 by (intro wait_loop_step) (simp_all add: spinning_def)
  have sp: "\<forall>j<k. spinning ?s u j"
  proof (intro allI impI)
    fix j assume "j < k"
    then have "spinning s u (Suc j)" using Suc.prems(1) by simp
    then show "spinning ?s u j" by (simp add: spinning_def algebra_simps)
  qed
  have le: "k \<le> unat (c - 1)" using Suc.prems(2) c0 by (simp add: unat_minus_one)
  have "wait_loop u st (c - 1) ?s =
          wait_loop u st (c - 1 - of_nat k) (?s\<lparr>ticks := ticks ?s + 3 * k\<rparr>)"
    by (rule Suc.IH [OF sp le])
  then show ?case using step by (simp add: algebra_simps)
qed

text \<open>When the pending bits outlast the whole count, the loop condition decrements the
  counter once more, from 0 to \<open>0xFFFFFFFF\<close>, and the test \<open>timeout_counter == 0\<close> after
  the loop fails: the wait reports success and records nothing.\<close>

lemma wait_loop_runs_out:
  assumes "\<forall>j<unat c. spinning s u j"
    and "con_in s u (ticks s + 3 * unat c) AND 0x1F \<noteq> 0"
  shows "wait_loop u st c s = (True, s\<lparr>ticks := Suc (ticks s + 3 * unat c)\<rparr>)"
proof -
  have "wait_loop u st c s =
          wait_loop u st (c - of_nat (unat c)) (s\<lparr>ticks := ticks s + 3 * unat c\<rparr>)"
    using assms(1) by (intro wait_loop_spin) simp_all
  also have "\<dots> = (True, s\<lparr>ticks := Suc (ticks s + 3 * unat c)\<rparr>)"
    using assms(2) by (simp add: wait_loop_exhausted)
  finally show ?thesis .
qed

text \<open>When the pending bits clear while the counter is still positive, the wait succeeds.
  When they clear exactly at the test that finds the counter at 0, the wait reports a
  timeout.\<close>

lemma wait_loop_completes:
  assumes "\<forall>j<k. spinning s u j" and "k < unat c"
    and "con_in s u (ticks s + 3 * k) AND 0x1F = 0"
  shows "wait_loop u st c s = (True, s\<lparr>ticks := Suc (ticks s + 3 * k)\<rparr>)"
proof -
  have nz: "c - of_nat k \<noteq> 0"
  proof
    assume "c - of_nat k = 0"
    then have "unat c = unat (of_nat k :: u32)" by simp
    also have "\<dots> \<le> k" by (simp add: unat_of_nat)
    finally show False using assms(2) by simp
  qed
  have "wait_loop u st c s = wait_loop u st (c - of_nat k) (s\<lparr>ticks := ticks s + 3 * k\<rparr>)"
    using assms(1,2) by (intro wait_loop_spin) simp_all
  also have "\<dots> = (True, s\<lparr>ticks := Suc (ticks s + 3 * k)\<rparr>)"
    using assms(3) nz by (simp add: wait_loop_exit)
  finally show ?thesis .
qed

lemma wait_loop_late:
  assumes "\<forall>j<unat c. spinning s u j"
    and "con_in s u (ticks s + 3 * unat c) AND 0x1F = 0"
  shows "wait_loop u st c s =
           (False, set_State st I2C_STATE_TIMEOUT (s\<lparr>ticks := Suc (ticks s + 3 * unat c)\<rparr>))"
proof -
  have "wait_loop u st c s =
          wait_loop u st (c - of_nat (unat c)) (s\<lparr>ticks := ticks s + 3 * unat c\<rparr>)"
    using assms(1) by (intro wait_loop_spin) simp_all
  also have "\<dots> = (False, set_State st I2C_STATE_TIMEOUT (s\<lparr>ticks := Suc (ticks s + 3 * unat c)\<rparr>))"
    using assms(2) by (simp add: wait_loop_exit)
  finally show ?thesis .
qed

text \<open>Every run of the loop ends in one of four ways: success, or failure with one of
  three status codes written to the unit's status word; nothing else changes except the
  access counter.\<close>

lemma wait_loop_shape:
  "\<exists>n. wait_loop u st c s = (True, s\<lparr>ticks := ticks s + n\<rparr>) \<or>
       (\<exists>e\<in>{I2C_STATE_OVERRUN, I2C_STATE_BUS_COLLISION, I2C_STATE_TIMEOUT}.
          wait_loop u st c s = (False, set_State st e (s\<lparr>ticks := ticks s + n\<rparr>)))"
proof (induction "unat c" arbitrary: c s)
  case 0
  then have c0: "c = 0" by (simp add: unat_eq_0)
  show ?case
  proof (cases "con_in s u (ticks s) AND 0x1F = 0")
    case True
    then show ?thesis unfolding c0 by (intro exI [of _ 1]) (simp add: wait_loop_exit)
  next
    case False
    then show ?thesis unfolding c0 by (intro exI [of _ 1]) (simp add: wait_loop_exhausted)
  qed
next
  case (Suc k)
  then have c0: "c \<noteq> 0" by auto
  consider (clear) "con_in s u (ticks s) AND 0x1F = 0"
    | (ov) "con_in s u (ticks s) AND 0x1F \<noteq> 0" "con_in s u (ticks s + 1) AND 0x200 \<noteq> 0"
    | (col) "con_in s u (ticks s) AND 0x1F \<noteq> 0" "con_in s u (ticks s + 1) AND 0x200 = 0"
        "con_in s u (ticks s + 2) AND 0x100 \<noteq> 0"
    | (go) "con_in s u (ticks s) AND 0x1F \<noteq> 0" "con_in s u (ticks s + 1) AND 0x200 = 0"
        "con_in s u (ticks s + 2) AND 0x100 = 0"
    by blast
  then show ?case
  proof cases
    case clear
    then show ?thesis using c0 by (intro exI [of _ 1]) (simp add: wait_loop_exit)
  next
    case ov
    then show ?thesis using c0 by (intro exI [of _ 2]) (simp add: wait_loop_overrun)
  next
    case col
    then show ?thesis using c0 by (intro exI [of _ 3]) (simp add: wait_loop_collision)
  next
    case go
    let ?s3 = "s\<lparr>ticks := ticks s + 3\<rparr>"
    have eq: "wait_loop u st c s = wait_loop u st (c - 1) ?s3"
      using go(1) c0 go(2,3) by (rule wait_loop_step)
    have "k = unat (c - 1)" using Suc(2) c0 by (simp add: unat_minus_one)
    from Suc(1) [OF this, of ?s3] obtain n where
      "wait_loop u st (c - 1) ?s3 = (True, ?s3\<lparr>ticks := ticks ?s3 + n\<rparr>) \<or>
       (\<exists>e\<in>{I2C_STATE_OVERRUN, I2C_STATE_BUS_COLLISION, I2C_STATE_TIMEOUT}.
          wait_loop u st (c - 1) ?s3 = (False, set_State st e (?s3\<lparr>ticks := ticks ?s3 + n\<rparr>)))"
      ..
    then show ?thesis unfolding eq
      by (intro exI [of _ "3 + n"]) (simp add: add.assoc)
  qed
qed

lemma WaitCondition_cases:
  obtains n where "I2C_WaitCondition m t s = (True, s\<lparr>ticks := ticks s + n\<rparr>)"
  | n e where "e \<in> {I2C_STATE_OVERRUN, I2C_STATE_BUS_COLLISION, I2C_STATE_TIMEOUT}"
      "I2C_WaitCondition m t s = (False, set_State (I2C_GetState m) e (s\<lparr>ticks := ticks s + n\<rparr>))"
  using wait_loop_shape [of "I2C_GetModuleBase m" "I2C_GetState m" "ucast (t * 1000)" s]
  unfolding I2C_WaitCondition_def by blast

section \<open>What the primitives change\<close>

lemmas upd_defs = set_State_def set_Busy_def reg_write_def reg_modify_def sfr_write_def

lemma accessors_same:
  "I2C_GetState m = I2C_GetModuleBase m"
  "I2C_GetBusyFlag m = I2C_GetModuleBase m"
  "I2C_GetConfig m = I2C_GetModuleBase m"
  by (simp_all add: I2C_GetModuleBase_def I2C_GetState_def I2C_GetBusyFlag_def I2C_GetConfig_def)

lemma WaitCondition_frame:
  "oplog (snd (I2C_WaitCondition m t s)) = oplog s"
  "I2C_Busy (snd (I2C_WaitCondition m t s)) = I2C_Busy s"
  "I2C_Config (snd (I2C_WaitCondition m t s)) = I2C_Config s"
  by (cases rule: WaitCondition_cases [of m t s]; simp add: upd_defs; fail)+

lemma WaitCondition_status:
  "fst (I2C_WaitCondition m t s) \<Longrightarrow> I2C_State (snd (I2C_WaitCondition m t s)) = I2C_State s"
  "\<not> fst (I2C_WaitCondition m t s) \<Longrightarrow>
     \<exists>e\<in>{I2C_STATE_OVERRUN, I2C_STATE_BUS_COLLISION, I2C_STATE_TIMEOUT}.
       I2C_State (snd (I2C_WaitCondition m t s)) = (I2C_State s)(I2C_GetState m := e)"
proof -
  show "fst (I2C_WaitCondition m t s) \<Longrightarrow>
          I2C_State (snd (I2C_WaitCondition m t s)) = I2C_State s"
    by (cases rule: WaitCondition_cases [of m t s]) (simp_all add: upd_defs)
  show "\<not> fst (I2C_WaitCondition m t s) \<Longrightarrow>
     \<exists>e\<in>{I2C_STATE_OVERRUN, I2C_STATE_BUS_COLLISION, I2C_STATE_TIMEOUT}.
       I2C_State (snd (I2C_WaitCondition m t s)) = (I2C_State s)(I2C_GetState m := e)"
  proof (cases rule: WaitCondition_cases [of m t s])
    case (1 n)
    assume "\<not> fst (I2C_WaitCondition m t s)"
    with 1 show ?thesis by simp
  next
    case (2 n e)
    then show ?thesis by (intro bexI [of _ e]) (simp_all add: upd_defs)
  qed
qed

lemma Stop_oplog:
  "oplog (snd (I2C_Stop m s)) = oplog s @ [I2CReg (I2C_GetModuleBase m) (ConOr 0x0004)]"
  by (simp add: I2C_Stop_def Let_def split_beta WaitCondition_frame upd_defs)

lemma Stop_success:
  "fst (I2C_Stop m s) \<Longrightarrow>
   \<not> I2C_IsBusy m (snd (I2C_Stop m s)) \<and> I2C_GetLastError m (snd (I2C_Stop m s)) = I2C_STATE_IDLE"
  by (simp add: I2C_Stop_def Let_def split_beta I2C_IsBusy_def I2C_GetLastError_def upd_defs
      split: if_splits)

lemma Stop_failure:
  assumes "\<not> fst (I2C_Stop m s)"
  shows "I2C_Busy (snd (I2C_Stop m s)) = I2C_Busy s"
    and "I2C_GetLastError m (snd (I2C_Stop m s)) \<in>
           {I2C_STATE_OVERRUN, I2C_STATE_BUS_COLLISION, I2C_STATE_TIMEOUT}"
proof -
  let ?s1 = "reg_modify (I2C_GetModuleBase m) (ConOr 0x0004) s"
  let ?w = "I2C_WaitCondition m (timeout_ms (I2C_Config ?s1 (I2C_GetConfig m))) ?s1"
  have nf: "\<not> fst ?w" and eq: "snd (I2C_Stop m s) = snd ?w"
    using assms by (auto simp: I2C_Stop_def Let_def split_beta split: if_splits)
  show "I2C_Busy (snd (I2C_Stop m s)) = I2C_Busy s"
    unfolding eq by (simp add: WaitCondition_frame upd_defs)
  show "I2C_GetLastError m (snd (I2C_Stop m s)) \<in>
           {I2C_STATE_OVERRUN, I2C_STATE_BUS_COLLISION, I2C_STATE_TIMEOUT}"
    unfolding eq I2C_GetLastError_def using WaitCondition_status(2) [OF nf] by auto
qed

lemma Start_success:
  assumes "I2C_Start m s = (True, s1)"
  shows "I2C_Busy s1 (I2C_GetBusyFlag m)"
    and "oplog s1 = oplog s @ [I2CReg (I2C_GetModuleBase m) (ConOr 0x0001)]"
  using assms
  by (auto simp: I2C_Start_def Let_def split_beta WaitCondition_frame upd_defs
      split: if_splits)

lemma WriteByte_frame:
  "I2C_Busy (snd (I2C_WriteByte m b s)) = I2C_Busy s"
  "oplog (snd (I2C_WriteByte m b s)) =
     oplog s @ [I2CReg (I2C_GetModuleBase m) (TrnAssign (ucast b)),
                I2CReg (I2C_GetModuleBase m) (ConOr 0x0008)]"
  by (simp_all add: I2C_WriteByte_def Let_def split_beta WaitCondition_frame upd_defs
      read_con_def)

lemma ReadByte_frame:
  "I2C_Busy (snd (I2C_ReadByte m ack s)) = I2C_Busy s"
  "oplog (snd (I2C_ReadByte m ack s)) = oplog s @ ReadByte_ops (I2C_GetModuleBase m) ack"
  by (simp_all add: I2C_ReadByte_def Let_def split_beta WaitCondition_frame upd_defs
      read_rcv_def ReadByte_ops_def)

section \<open>The loops of the composite operations\<close>

lemma unat_succ_less: "(i::u8) < len \<Longrightarrow> unat (i + 1) = Suc (unat i)"
  by unat_arith

lemma WriteData_loop_send_bytes:
  "WriteData_loop m d len i s =
     (case send_bytes m (map d [unat i..<unat len]) s of
        (ok, s2) \<Rightarrow> (ok \<and> fst (I2C_Stop m s2), snd (I2C_Stop m s2)))"
proof (induction m d len i s rule: WriteData_loop.induct)
  case (1 m d len i s)
  show ?case
  proof (cases "i < len")
    case False
    then have e: "[unat i..<unat len] = []" by (simp add: word_less_nat_alt)
    show ?thesis using False by (subst WriteData_loop.simps) (simp add: e)
  next
    case True
    then have up: "[unat i..<unat len] = unat i # [unat (i + 1)..<unat len]"
      by (simp add: unat_succ_less upt_conv_Cons word_less_nat_alt)
    show ?thesis
    proof (cases "fst (I2C_WriteByte m (d (unat i)) s)")
      case False
      with True show ?thesis
        by (subst WriteData_loop.simps) (simp add: up split_beta)
    next
      case ok: True
      have "WriteData_loop m d len i s =
              WriteData_loop m d len (i + 1) (snd (I2C_WriteByte m (d (unat i)) s))"
        using True ok by (subst WriteData_loop.simps) (simp add: split_beta)
      also have "\<dots> = (case send_bytes m (map d [unat (i + 1)..<unat len])
                               (snd (I2C_WriteByte m (d (unat i)) s)) of
                         (ok, s2) \<Rightarrow> (ok \<and> fst (I2C_Stop m s2), snd (I2C_Stop m s2)))"
        using True ok by (intro "1.IH" [OF True _ _]) (auto simp: prod_eq_iff)
      finally show ?thesis using ok by (simp add: up split_beta)
    qed
  qed
qed

lemma WriteData_send_bytes:
  assumes "len \<noteq> 0" and "I2C_Start m s = (True, s1)"
  shows "I2C_WriteData m a (Some d) len s =
     (case send_bytes m ((push_bit 1 a OR 0x00) # map d [0..<unat len]) s1 of
        (ok, s2) \<Rightarrow> (ok \<and> fst (I2C_Stop m s2), snd (I2C_Stop m s2)))"
  using assms by (simp add: I2C_WriteData_def WriteData_loop_send_bytes split_beta)

lemma send_bytes_Busy: "I2C_Busy (snd (send_bytes m bs s)) = I2C_Busy s"
  by (induction bs arbitrary: s) (simp_all add: split_beta WriteByte_frame)

section \<open>Composite operations in terms of the primitives\<close>

lemmas eval_defs =
  I2C_Init_def I2C_ConfigurePins_def I2C_SetCallback_def I2C_CONFIG_DEFAULT_MASTER_def
  I2C_Start_def I2C_Stop_def I2C_WriteByte_def I2C_ReadByte_def I2C_WaitCondition_def
  I2C_WriteData_def I2C_ReadData_def I2C_CheckDevice_def
  I2C_GetModuleBase_def I2C_GetState_def I2C_GetBusyFlag_def I2C_GetConfig_def
  I2C_MODULE_1_def I2C_MODULE_2_def I2C_IsBusy_def I2C_GetLastError_def
  upd_defs read_con_def read_rcv_def power_on_def zero_Config_def Let_def
  wait_loop.simps WriteData_loop.simps ReadData_loop.simps WriteData_bytes_def

lemma WriteData_by_bytes:
  assumes "len \<noteq> 0" and "fst (I2C_Start m s)"
  shows "I2C_WriteData m a (Some d) len s =
     (fst (WriteData_bytes m a d len s) \<and> fst (I2C_Stop m (snd (WriteData_bytes m a d len s))),
      snd (I2C_Stop m (snd (WriteData_bytes m a d len s))))"
proof -
  have "I2C_Start m s = (True, snd (I2C_Start m s))" using assms(2) by (simp add: prod_eq_iff)
  from WriteData_send_bytes [OF assms(1) this, of a d] show ?thesis
    by (simp add: WriteData_bytes_def split_beta)
qed

lemma WriteData_bytes_Busy:
  assumes "fst (I2C_Start m s)"
  shows "I2C_IsBusy m (snd (WriteData_bytes m a d len s))"
proof -
  have "I2C_Start m s = (True, snd (I2C_Start m s))" using assms by (simp add: prod_eq_iff)
  then have "I2C_Busy (snd (I2C_Start m s)) (I2C_GetBusyFlag m)" by (rule Start_success)
  then show ?thesis unfolding WriteData_bytes_def I2C_IsBusy_def by (simp only: send_bytes_Busy)
qed


lemma ReadData_unfold:
  assumes "len \<noteq> 0" and "fst (I2C_Start m s)"
  shows "I2C_ReadData m a (Some buf) len s =
     (if \<not> fst (I2C_WriteByte m (push_bit 1 a OR 0x01) (snd (I2C_Start m s)))
      then (False, Some buf,
            snd (I2C_Stop m (snd (I2C_WriteByte m (push_bit 1 a OR 0x01) (snd (I2C_Start m s))))))
      else (fst (I2C_Stop m (snd (ReadData_loop m len 0 buf
                   (snd (I2C_WriteByte m (push_bit 1 a OR 0x01) (snd (I2C_Start m s))))))),
            Some (fst (ReadData_loop m len 0 buf
                   (snd (I2C_WriteByte m (push_bit 1 a OR 0x01) (snd (I2C_Start m s)))))),
            snd (I2C_Stop m (snd (ReadData_loop m len 0 buf
                   (snd (I2C_WriteByte m (push_bit 1 a OR 0x01) (snd (I2C_Start m s)))))))))"
  using assms unfolding I2C_ReadData_def by (simp add: split_beta del: One_nat_def)

lemma ack_cond: "i < len \<Longrightarrow> (uint (i::u8) < uint (len::u8) - 1) = (Suc (unat i) < unat len)"
  unfolding uint_nat by linarith

lemma ReadData_loop_oplog:
  "oplog (snd (ReadData_loop m len i buf s)) =
     oplog s @ concat (map (\<lambda>j. ReadByte_ops (I2C_GetModuleBase m) (Suc j < unat len))
                        [unat i..<unat len])"
proof (induction m len i buf s rule: ReadData_loop.induct)
  case (1 m len i buf s)
  show ?case
  proof (cases "i < len")
    case False
    then have e: "[unat i..<unat len] = []" by (simp add: word_less_nat_alt)
    show ?thesis using False by (subst ReadData_loop.simps) (simp add: e)
  next
    case True
    then have up: "[unat i..<unat len] = unat i # [unat (i + 1)..<unat len]"
      by (simp add: unat_succ_less upt_conv_Cons word_less_nat_alt)
    let ?ack = "uint i < uint len - 1"
    let ?r = "I2C_ReadByte m ?ack s"
    have "ReadData_loop m len i buf s =
            ReadData_loop m len (i + 1) (buf(unat i := fst ?r)) (snd ?r)"
      using True by (subst ReadData_loop.simps) (simp add: split_beta Let_def)
    moreover have "oplog (snd (ReadData_loop m len (i + 1) (buf(unat i := fst ?r)) (snd ?r))) =
        oplog (snd ?r) @ concat (map (\<lambda>j. ReadByte_ops (I2C_GetModuleBase m) (Suc j < unat len))
                        [unat (i + 1)..<unat len])"
      using True by (intro "1.IH" [OF True refl]) (auto simp: prod_eq_iff)
    ultimately show ?thesis
      using True by (simp add: up ReadByte_frame ack_cond)
  qed
qed

lemma acks_of_read:
  "0 < n \<Longrightarrow> map (\<lambda>j. Suc j < n) [0..<n] = replicate (n - 1) True @ [False]"
proof -
  assume "0 < n"
  then obtain k where n: "n = Suc k" by (cases n) auto
  have "map (\<lambda>j. Suc j < Suc k) [0..<k] = map (\<lambda>j. True) [0..<k]"
    by (rule map_cong) auto
  then have "map (\<lambda>j. Suc j < Suc k) [0..<k] = replicate k True"
    by (simp add: map_replicate_const)
  then show ?thesis by (simp add: n)
qed


section \<open>The status codes the driver assigns\<close>

lemma status_step_refl: "status_step s s"
  by (simp add: status_step_def)

lemma status_step_trans: "status_step s s' \<Longrightarrow> status_step s' s'' \<Longrightarrow> status_step s s''"
  unfolding status_step_def by metis

lemma status_step_same: "I2C_State s' = I2C_State s \<Longrightarrow> status_step s s'"
  by (simp add: status_step_def)

lemma status_step_set:
  "c \<in> written_codes \<Longrightarrow> I2C_State s' = (I2C_State s)(u := c) \<Longrightarrow> status_step s s'"
  by (simp add: status_step_def)

lemma status_step_ADDR_NACK:
  "status_step s s' \<Longrightarrow> I2C_State s' u = I2C_STATE_ADDR_NACK \<Longrightarrow>
   I2C_State s u = I2C_STATE_ADDR_NACK"
  by (cases u) (auto simp: status_step_def written_codes_def)

lemma WaitCondition_step: "status_step s (snd (I2C_WaitCondition m t s))"
proof (cases rule: WaitCondition_cases [of m t s])
  case (1 n)
  then show ?thesis by (simp add: status_step_same)
next
  case (2 n e)
  then show ?thesis
    by (intro status_step_set [of e _ _ "I2C_GetState m"]) (auto simp: written_codes_def upd_defs)
qed

lemma Start_step: "status_step s (snd (I2C_Start m s))"
proof (cases "I2C_Busy s (I2C_GetBusyFlag m)")
  case True
  then show ?thesis by (simp add: I2C_Start_def status_step_refl)
next
  case False
  let ?s1 = "reg_modify (I2C_GetModuleBase m) (ConOr 0x0001)
               (set_State (I2C_GetState m) I2C_STATE_BUSY (set_Busy (I2C_GetBusyFlag m) True s))"
  let ?w = "I2C_WaitCondition m (timeout_ms (I2C_Config ?s1 (I2C_GetConfig m))) ?s1"
  have a: "status_step s ?s1"
    by (intro status_step_set [of I2C_STATE_BUSY _ _ "I2C_GetState m"])
       (simp_all add: written_codes_def upd_defs)
  have b: "status_step ?s1 (snd ?w)" by (rule WaitCondition_step)
  have "I2C_State (snd (I2C_Start m s)) = I2C_State (snd ?w)"
    using False by (simp add: I2C_Start_def Let_def split_beta upd_defs)
  then have "status_step (snd ?w) (snd (I2C_Start m s))" by (rule status_step_same)
  with a b show ?thesis by (blast intro: status_step_trans)
qed

lemma Restart_step: "status_step s (snd (I2C_Restart m s))"
proof -
  let ?s1 = "reg_modify (I2C_GetModuleBase m) (ConOr 0x0002) s"
  have "status_step s ?s1" by (simp add: status_step_same upd_defs)
  moreover have "status_step ?s1 (snd (I2C_Restart m s))"
    unfolding I2C_Restart_def Let_def by (rule WaitCondition_step)
  ultimately show ?thesis by (rule status_step_trans)
qed

lemma Stop_step: "status_step s (snd (I2C_Stop m s))"
proof -
  let ?s1 = "reg_modify (I2C_GetModuleBase m) (ConOr 0x0004) s"
  let ?w = "I2C_WaitCondition m (timeout_ms (I2C_Config ?s1 (I2C_GetConfig m))) ?s1"
  have a: "status_step s ?s1" by (simp add: status_step_same upd_defs)
  have b: "status_step ?s1 (snd ?w)" by (rule WaitCondition_step)
  have "status_step (snd ?w) (snd (I2C_Stop m s))"
  proof (cases "fst ?w")
    case True
    then show ?thesis
      by (intro status_step_set [of I2C_STATE_IDLE _ _ "I2C_GetState m"])
         (simp_all add: I2C_Stop_def Let_def split_beta written_codes_def upd_defs)
  next
    case False
    then show ?thesis by (simp add: I2C_Stop_def Let_def split_beta status_step_refl)
  qed
  with a b show ?thesis by (blast intro: status_step_trans)
qed

lemma WriteByte_step: "status_step s (snd (I2C_WriteByte m b s))"
proof -
  let ?s1 = "reg_modify (I2C_GetModuleBase m) (ConOr 0x0008)
               (reg_write (I2C_GetModuleBase m) (TrnAssign (ucast b)) s)"
  let ?w = "I2C_WaitCondition m (timeout_ms (I2C_Config ?s1 (I2C_GetConfig m))) ?s1"
  have a: "status_step s ?s1" by (simp add: status_step_same upd_defs)
  have b: "status_step ?s1 (snd ?w)" by (rule WaitCondition_step)
  have "status_step (snd ?w) (snd (I2C_WriteByte m b s))"
  proof (cases "fst ?w \<and> con_in (snd ?w) (I2C_GetModuleBase m) (ticks (snd ?w)) AND push_bit 15 1 \<noteq> 0")
    case True
    then show ?thesis
      by (intro status_step_set [of I2C_STATE_DATA_NACK _ _ "I2C_GetState m"])
         (simp_all add: I2C_WriteByte_def Let_def split_beta written_codes_def upd_defs
            read_con_def)
  next
    case False
    then show ?thesis
      by (intro status_step_same)
         (auto simp: I2C_WriteByte_def Let_def split_beta upd_defs read_con_def)
  qed
  with a b show ?thesis by (blast intro: status_step_trans)
qed

lemma ReadByte_step: "status_step s (snd (I2C_ReadByte m ack s))"
proof -
  let ?s0 = "if ack then reg_modify (I2C_GetModuleBase m) (ConAnd (NOT (push_bit 4 1))) s
             else reg_modify (I2C_GetModuleBase m) (ConOr (push_bit 4 1)) s"
  let ?s1 = "reg_modify (I2C_GetModuleBase m) (ConOr 0x0008) ?s0"
  let ?w = "I2C_WaitCondition m (timeout_ms (I2C_Config ?s1 (I2C_GetConfig m))) ?s1"
  have a: "status_step s ?s1" by (simp add: status_step_same upd_defs)
  have b: "status_step ?s1 (snd ?w)" by (rule WaitCondition_step)
  have "I2C_State (snd (I2C_ReadByte m ack s)) = I2C_State (snd ?w)"
    by (simp add: I2C_ReadByte_def Let_def split_beta read_rcv_def)
  then have "status_step (snd ?w) (snd (I2C_ReadByte m ack s))" by (rule status_step_same)
  with a b show ?thesis by (blast intro: status_step_trans)
qed

lemma send_bytes_step: "status_step s (snd (send_bytes m bs s))"
proof (induction bs arbitrary: s)
  case Nil
  show ?case by (simp add: status_step_refl)
next
  case (Cons b bs)
  have a: "status_step s (snd (I2C_WriteByte m b s))" by (rule WriteByte_step)
  show ?case
  proof (cases "fst (I2C_WriteByte m b s)")
    case True
    then show ?thesis
      using status_step_trans [OF a Cons.IH [of "snd (I2C_WriteByte m b s)"]]
      by (simp add: split_beta)
  next
    case False
    then show ?thesis using a by (simp add: split_beta)
  qed
qed

lemma WriteData_loop_step: "status_step s (snd (WriteData_loop m d len i s))"
proof -
  let ?s2 = "snd (send_bytes m (map d [unat i..<unat len]) s)"
  have "snd (WriteData_loop m d len i s) = snd (I2C_Stop m ?s2)"
    unfolding WriteData_loop_send_bytes by (simp add: split_beta)
  then show ?thesis
    using status_step_trans [OF send_bytes_step [of s m] Stop_step [of ?s2 m]] by simp
qed

lemma WriteData_step: "status_step s (snd (I2C_WriteData m a data len s))"
proof (cases "len = 0 \<or> data = None")
  case True
  then show ?thesis by (auto simp: I2C_WriteData_def status_step_refl)
next
  case False
  let ?s1 = "snd (I2C_Start m s)"
  let ?s2 = "snd (I2C_WriteByte m (push_bit 1 a OR 0x00) ?s1)"
  have a: "status_step s ?s1" by (rule Start_step)
  have b: "status_step ?s1 ?s2" by (rule WriteByte_step)
  have c: "status_step ?s2 (snd (I2C_Stop m ?s2))" by (rule Stop_step)
  have d: "status_step ?s2 (snd (WriteData_loop m (the data) len 0 ?s2))"
    by (rule WriteData_loop_step)
  have "snd (I2C_WriteData m a data len s) = ?s1 \<or>
        snd (I2C_WriteData m a data len s) = snd (I2C_Stop m ?s2) \<or>
        snd (I2C_WriteData m a data len s) = snd (WriteData_loop m (the data) len 0 ?s2)"
    using False by (auto simp: I2C_WriteData_def split_beta)
  then show ?thesis
  proof (elim disjE)
    assume "snd (I2C_WriteData m a data len s) = ?s1"
    then show ?thesis using a by simp
  next
    assume "snd (I2C_WriteData m a data len s) = snd (I2C_Stop m ?s2)"
    then show ?thesis
      using status_step_trans [OF status_step_trans [OF a b] c] by simp
  next
    assume "snd (I2C_WriteData m a data len s) = snd (WriteData_loop m (the data) len 0 ?s2)"
    then show ?thesis
      using status_step_trans [OF status_step_trans [OF a b] d] by simp
  qed
qed

lemma ReadData_loop_step: "status_step s (snd (ReadData_loop m len i buf s))"
proof (induction m len i buf s rule: ReadData_loop.induct)
  case (1 m len i buf s)
  show ?case
  proof (cases "i < len")
    case False
    then show ?thesis by (subst ReadData_loop.simps) (simp add: status_step_refl)
  next
    case True
    let ?r = "I2C_ReadByte m (uint i < uint len - 1) s"
    have eq: "ReadData_loop m len i buf s =
            ReadData_loop m len (i + 1) (buf(unat i := fst ?r)) (snd ?r)"
      using True by (subst ReadData_loop.simps) (simp add: split_beta Let_def)
    have "status_step (snd ?r) (snd (ReadData_loop m len (i + 1) (buf(unat i := fst ?r)) (snd ?r)))"
      using True by (intro "1.IH" [OF True refl]) (auto simp: prod_eq_iff)
    then show ?thesis unfolding eq using ReadByte_step [of s m] by (blast intro: status_step_trans)
  qed
qed

lemma ReadData_step: "status_step s (snd (snd (I2C_ReadData m a buffer len s)))"
proof (cases "len = 0 \<or> buffer = None")
  case True
  then show ?thesis by (auto simp: I2C_ReadData_def status_step_refl)
next
  case False
  let ?s1 = "snd (I2C_Start m s)"
  let ?s2 = "snd (I2C_WriteByte m (push_bit 1 a OR 0x01) ?s1)"
  let ?s3 = "snd (ReadData_loop m len 0 (the buffer) ?s2)"
  have a: "status_step s ?s1" by (rule Start_step)
  have b: "status_step ?s1 ?s2" by (rule WriteByte_step)
  have c: "status_step ?s2 (snd (I2C_Stop m ?s2))" by (rule Stop_step)
  have d: "status_step ?s2 ?s3" by (rule ReadData_loop_step)
  have e: "status_step ?s3 (snd (I2C_Stop m ?s3))" by (rule Stop_step)
  have "snd (snd (I2C_ReadData m a buffer len s)) = ?s1 \<or>
        snd (snd (I2C_ReadData m a buffer len s)) = snd (I2C_Stop m ?s2) \<or>
        snd (snd (I2C_ReadData m a buffer len s)) = snd (I2C_Stop m ?s3)"
    using False by (auto simp: I2C_ReadData_def split_beta)
  then show ?thesis
  proof (elim disjE)
    assume "snd (snd (I2C_ReadData m a buffer len s)) = ?s1"
    then show ?thesis using a by simp
  next
    assume "snd (snd (I2C_ReadData m a buffer len s)) = snd (I2C_Stop m ?s2)"
    then show ?thesis
      using status_step_trans [OF status_step_trans [OF a b] c] by simp
  next
    assume "snd (snd (I2C_ReadData m a buffer len s)) = snd (I2C_Stop m ?s3)"
    then show ?thesis
      using status_step_trans [OF status_step_trans [OF status_step_trans [OF a b] d] e]
      by simp
  qed
qed

lemma CheckDevice_step: "status_step s (snd (I2C_CheckDevice m a s))"
proof -
  let ?s1 = "snd (I2C_Start m s)"
  let ?s2 = "snd (I2C_WriteByte m (push_bit 1 a OR 0x00) ?s1)"
  have a: "status_step s ?s1" by (rule Start_step)
  have b: "status_step ?s1 ?s2" by (rule WriteByte_step)
  have c: "status_step ?s2 (snd (I2C_Stop m ?s2))" by (rule Stop_step)
  have "snd (I2C_CheckDevice m a s) = ?s1 \<or> snd (I2C_CheckDevice m a s) = snd (I2C_Stop m ?s2)"
    by (simp add: I2C_CheckDevice_def split_beta del: One_nat_def)
  then show ?thesis
  proof (elim disjE)
    assume "snd (I2C_CheckDevice m a s) = ?s1"
    then show ?thesis using a by simp
  next
    assume "snd (I2C_CheckDevice m a s) = snd (I2C_Stop m ?s2)"
    then show ?thesis
      using status_step_trans [OF status_step_trans [OF a b] c] by simp
  qed
qed

lemma WriteRegister_step: "status_step s (snd (I2C_WriteRegister m dev reg b s))"
  unfolding I2C_WriteRegister_def by (rule WriteData_step)

lemma ReadRegister_step: "status_step s (snd (I2C_ReadRegister m dev reg s))"
proof -
  let ?w = "I2C_WriteData m dev (Some (\<lambda>i. [reg] ! i)) 1 s"
  let ?r = "I2C_ReadData m dev (Some (\<lambda>i. [0] ! i)) 1 (snd ?w)"
  have a: "status_step s (snd ?w)" by (rule WriteData_step)
  have b: "status_step (snd ?w) (snd (snd ?r))" by (rule ReadData_step)
  have "snd (I2C_ReadRegister m dev reg s) = snd ?w \<or>
        snd (I2C_ReadRegister m dev reg s) = snd (snd ?r)"
    by (simp add: I2C_ReadRegister_def Let_def split_beta)
  then show ?thesis
  proof (elim disjE)
    assume "snd (I2C_ReadRegister m dev reg s) = snd ?w"
    then show ?thesis using a by simp
  next
    assume "snd (I2C_ReadRegister m dev reg s) = snd (snd ?r)"
    then show ?thesis using status_step_trans [OF a b] by simp
  qed
qed

lemma ScanBus_loop_step:
  "status_step s (snd (snd (ScanBus_loop m devices max_devices addr found s)))"
proof (induction m devices max_devices addr found s rule: ScanBus_loop.induct)
  case (1 m devices max_devices addr found s)
  show ?case
  proof (cases "addr < 127")
    case False
    then show ?thesis by (subst ScanBus_loop.simps) (simp add: status_step_refl)
  next
    case True
    let ?c = "I2C_CheckDevice m addr s"
    have a: "status_step s (snd ?c)" by (rule CheckDevice_step)
    show ?thesis
    proof (cases "fst ?c")
      case present: True
      let ?dev = "if devices \<noteq> None \<and> found < max_devices
                  then Some ((the devices)(unat found := addr)) else devices"
      have eq: "ScanBus_loop m devices max_devices addr found s =
                ScanBus_loop m ?dev max_devices (addr + 1) (found + 1) (snd ?c)"
        using True present by (subst ScanBus_loop.simps) (simp add: split_beta)
      have "status_step (snd ?c)
              (snd (snd (ScanBus_loop m ?dev max_devices (addr + 1) (found + 1) (snd ?c))))"
        using present by (intro "1.IH"(1) [OF True _ _]) (auto simp: prod_eq_iff)
      then show ?thesis unfolding eq using a by (blast intro: status_step_trans)
    next
      case absent: False
      have eq: "ScanBus_loop m devices max_devices addr found s =
                ScanBus_loop m devices max_devices (addr + 1) found (snd ?c)"
        using True absent by (subst ScanBus_loop.simps) (simp add: split_beta)
      have "status_step (snd ?c)
              (snd (snd (ScanBus_loop m devices max_devices (addr + 1) found (snd ?c))))"
        using absent by (intro "1.IH"(2) [OF True _ _]) (auto simp: prod_eq_iff)
      then show ?thesis unfolding eq using a by (blast intro: status_step_trans)
    qed
  qed
qed

lemma ScanBus_step: "status_step s (snd (snd (I2C_ScanBus m devices max_devices s)))"
  using ScanBus_loop_step [of s m devices max_devices 1 0]
  by (simp add: I2C_ScanBus_def split_beta)

lemma WaitIdle_loop_State: "I2C_State (snd (WaitIdle_loop u c s)) = I2C_State s"
proof (induction u c s rule: WaitIdle_loop.induct)
  case (1 u c s)
  show ?case
  proof (cases "stat_in s u (ticks s) AND push_bit 14 1 \<noteq> 0 \<and> c \<noteq> 0")
    case True
    have "WaitIdle_loop u c s = WaitIdle_loop u (c - 1) (s\<lparr>ticks := Suc (ticks s)\<rparr>)"
      using True by (subst WaitIdle_loop.simps) (simp add: read_stat_def)
    moreover have "I2C_State (snd (WaitIdle_loop u (c - 1) (s\<lparr>ticks := Suc (ticks s)\<rparr>))) =
        I2C_State (s\<lparr>ticks := Suc (ticks s)\<rparr>)"
      using True by (intro "1.IH") (auto simp: read_stat_def)
    ultimately show ?thesis by simp
  next
    case False
    then show ?thesis by (subst WaitIdle_loop.simps) (auto simp: read_stat_def Let_def)
  qed
qed

lemma WaitIdle_step: "status_step s (snd (I2C_WaitIdle m t s))"
  by (simp add: I2C_WaitIdle_def WaitIdle_loop_State status_step_same)

lemma SetCallback_State: "I2C_State (I2C_SetCallback m cb s) = I2C_State s"
  by (simp add: I2C_SetCallback_def)

lemma ConfigurePins_State: "I2C_State (I2C_ConfigurePins m s) = I2C_State s"
  by (simp add: I2C_ConfigurePins_def upd_defs)

lemma Init_step: "status_step s (I2C_Init config s)"
proof (cases config)
  case None
  then show ?thesis by (simp add: I2C_Init_def status_step_refl)
next
  case (Some c)
  have "I2C_State (I2C_Init config s) = (I2C_State s)(I2C_GetState (module c) := I2C_STATE_IDLE)"
    unfolding Some I2C_Init_def
    by (simp add: Let_def SetCallback_State ConfigurePins_State upd_defs
        split: I2C_Mode_t.split)
  then show ?thesis
    by (intro status_step_set [of I2C_STATE_IDLE]) (simp_all add: written_codes_def)
qed

lemma Deinit_step: "status_step s (I2C_Deinit m s)"
  by (intro status_step_set [of I2C_STATE_IDLE _ _ "I2C_GetState m"])
     (simp_all add: written_codes_def I2C_Deinit_def Let_def upd_defs)

lemma ClearErrors_step: "status_step s (I2C_ClearErrors m s)"
  by (intro status_step_set [of I2C_STATE_IDLE _ _ "I2C_GetState m"])
     (simp_all add: written_codes_def I2C_ClearErrors_def Let_def upd_defs)

lemma call_step: "status_step s (call c s)"
  by (cases c)
     (simp_all add: Init_step Deinit_step Start_step Restart_step Stop_step WriteByte_step
        ReadByte_step WriteData_step ReadData_step WriteRegister_step ReadRegister_step
        ScanBus_step CheckDevice_step SetCallback_State status_step_same WaitIdle_step
        ClearErrors_step)

lemma run_step: "status_step s (run cs s)"
proof (induction cs arbitrary: s)
  case Nil
  show ?case by (simp add: status_step_refl)
next
  case (Cons c cs)
  show ?case using status_step_trans [OF call_step [of s c] Cons.IH [of "call c s"]] by simp
qed

lemma WriteByte_failure_codes:
  assumes "\<not> fst (I2C_WriteByte m b s)"
  shows "I2C_GetLastError m (snd (I2C_WriteByte m b s)) \<in>
           {I2C_STATE_TIMEOUT, I2C_STATE_DATA_NACK, I2C_STATE_BUS_COLLISION, I2C_STATE_OVERRUN}"
proof -
  let ?s1 = "reg_modify (I2C_GetModuleBase m) (ConOr 0x0008)
               (reg_write (I2C_GetModuleBase m) (TrnAssign (ucast b)) s)"
  let ?w = "I2C_WaitCondition m (timeout_ms (I2C_Config ?s1 (I2C_GetConfig m))) ?s1"
  show ?thesis
  proof (cases "fst ?w")
    case False
    then have "snd (I2C_WriteByte m b s) = snd ?w"
      by (simp add: I2C_WriteByte_def Let_def split_beta)
    then show ?thesis using WaitCondition_status(2) [OF False]
      by (auto simp: I2C_GetLastError_def)
  next
    case True
    then show ?thesis using assms
      by (auto simp: I2C_WriteByte_def Let_def split_beta I2C_GetLastError_def upd_defs
          read_con_def split: if_splits)
  qed
qed

section \<open>The stop and the byte write in terms of their wait\<close>

lemma WaitCondition_con_in:
  "con_in (snd (I2C_WaitCondition m t s)) = con_in s"
  by (cases rule: WaitCondition_cases [of m t s]) (simp_all add: upd_defs)

lemma Stop_by_wait:
  "I2C_Stop m s =
     (if fst (I2C_WaitCondition m (timeout_ms (I2C_Config s (I2C_GetConfig m)))
               (reg_modify (I2C_GetModuleBase m) (ConOr 0x0004) s))
      then (True, set_State (I2C_GetState m) I2C_STATE_IDLE
                    (set_Busy (I2C_GetBusyFlag m) False
                       (snd (I2C_WaitCondition m (timeout_ms (I2C_Config s (I2C_GetConfig m)))
                               (reg_modify (I2C_GetModuleBase m) (ConOr 0x0004) s)))))
      else (False, snd (I2C_WaitCondition m (timeout_ms (I2C_Config s (I2C_GetConfig m)))
                          (reg_modify (I2C_GetModuleBase m) (ConOr 0x0004) s))))"
  by (simp add: I2C_Stop_def Let_def split_beta upd_defs)

lemma Stop_result:
  "fst (I2C_Stop m s) =
     fst (I2C_WaitCondition m (timeout_ms (I2C_Config s (I2C_GetConfig m)))
            (reg_modify (I2C_GetModuleBase m) (ConOr 0x0004) s))"
  by (simp add: Stop_by_wait)

lemma WriteByte_by_wait:
  "I2C_WriteByte m b s =
     (let w = I2C_WaitCondition m (timeout_ms (I2C_Config s (I2C_GetConfig m)))
                (reg_modify (I2C_GetModuleBase m) (ConOr 0x0008)
                   (reg_write (I2C_GetModuleBase m) (TrnAssign (ucast b)) s))
      in if \<not> fst w then (False, snd w)
         else if con_in s (I2C_GetModuleBase m) (ticks (snd w)) AND 0x8000 \<noteq> 0
         then (False, set_State (I2C_GetState m) I2C_STATE_DATA_NACK
                        ((snd w)\<lparr>ticks := Suc (ticks (snd w))\<rparr>))
         else (True, (snd w)\<lparr>ticks := Suc (ticks (snd w))\<rparr>))"
  by (simp add: I2C_WriteByte_def Let_def split_beta upd_defs read_con_def WaitCondition_con_in)

lemma WriteByte_nack:
  assumes "fst (I2C_WaitCondition m (timeout_ms (I2C_Config s (I2C_GetConfig m)))
                (reg_modify (I2C_GetModuleBase m) (ConOr 0x0008)
                   (reg_write (I2C_GetModuleBase m) (TrnAssign (ucast b)) s)))"
    and "con_in s (I2C_GetModuleBase m)
           (ticks (snd (I2C_WaitCondition m (timeout_ms (I2C_Config s (I2C_GetConfig m)))
                (reg_modify (I2C_GetModuleBase m) (ConOr 0x0008)
                   (reg_write (I2C_GetModuleBase m) (TrnAssign (ucast b)) s))))) AND 0x8000 \<noteq> 0"
  shows "\<not> fst (I2C_WriteByte m b s)"
    and "I2C_GetLastError m (snd (I2C_WriteByte m b s)) = I2C_STATE_DATA_NACK"
  using assms by (simp_all add: WriteByte_by_wait Let_def I2C_GetLastError_def upd_defs)

lemma WriteByte_ack:
  assumes "fst (I2C_WaitCondition m (timeout_ms (I2C_Config s (I2C_GetConfig m)))
                (reg_modify (I2C_GetModuleBase m) (ConOr 0x0008)
                   (reg_write (I2C_GetModuleBase m) (TrnAssign (ucast b)) s)))"
    and "con_in s (I2C_GetModuleBase m)
           (ticks (snd (I2C_WaitCondition m (timeout_ms (I2C_Config s (I2C_GetConfig m)))
                (reg_modify (I2C_GetModuleBase m) (ConOr 0x0008)
                   (reg_write (I2C_GetModuleBase m) (TrnAssign (ucast b)) s))))) AND 0x8000 = 0"
  shows "fst (I2C_WriteByte m b s)"
  using assms by (simp add: WriteByte_by_wait Let_def)

lemma CheckDevice_unfold:
  assumes "fst (I2C_Start m s)"
  shows "I2C_CheckDevice m a s =
     (fst (I2C_WriteByte m (push_bit 1 a OR 0x00) (snd (I2C_Start m s))),
      snd (I2C_Stop m (snd (I2C_WriteByte m (push_bit 1 a OR 0x00) (snd (I2C_Start m s))))))"
  using assms unfolding I2C_CheckDevice_def by (simp add: split_beta del: One_nat_def)

lemma WriteData_address_fails:
  assumes "len \<noteq> 0" and "fst (I2C_Start m s)"
    and "\<not> fst (I2C_WriteByte m (push_bit 1 a OR 0x00) (snd (I2C_Start m s)))"
  shows "I2C_WriteData m a (Some d) len s =
     (False, snd (I2C_Stop m (snd (I2C_WriteByte m (push_bit 1 a OR 0x00) (snd (I2C_Start m s))))))"
  using assms unfolding I2C_WriteData_def by (simp add: split_beta del: One_nat_def)

section \<open>Claims\<close>

text \<open>
  C1. The claim: whenever the poll counter of the wait primitive reaches zero before the
  pending bits clear, the status becomes timeout and the wait returns failure. The code at
  a concrete input: unit 1, a timeout of 1 ms (a count of 1000), and a control register that
  keeps reading \<open>0x0001\<close>. After 1000 passes the counter is 0 with the pending bit still
  set, yet \<open>_I2C_WaitCondition\<close> returns \<open>true\<close> and the status is still idle.
\<close>

theorem WaitCondition_exhausted_returns_true:
  "I2C_WaitCondition I2C_MODULE_1 1 stuck_bus = (True, stuck_bus\<lparr>ticks := 3001\<rparr>)"
proof -
  have c: "(ucast (1 * 1000 :: u16) :: u32) = 1000" by simp
  have u: "unat (1000 :: u32) = 1000" by simp
  have sp: "\<forall>j<unat (1000 :: u32). spinning stuck_bus UNIT1 j"
    by (simp add: spinning_def stuck_bus_def power_on_def)
  have "wait_loop UNIT1 UNIT1 1000 stuck_bus =
          (True, stuck_bus\<lparr>ticks := Suc (ticks stuck_bus + 3 * unat (1000 :: u32))\<rparr>)"
    by (rule wait_loop_runs_out [OF sp]) (simp add: stuck_bus_def power_on_def)
  then show ?thesis
    unfolding I2C_WaitCondition_def c
    by (simp add: u I2C_GetModuleBase_def I2C_GetState_def stuck_bus_def power_on_def)
qed

text \<open>
  C2, as amended. Each pass of the wait loop tests the pending bits and the counter first,
  and tests the overrun and the collision bit in the body, on later reads of the register.
  If in pass \<open>k\<close> of the wait of \<open>I2C_Start\<close> (the passes before it without error flag,
  the counter not used up) a pending bit is set in the loop condition, the overrun bit reads
  clear and the collision bit reads set, then the status becomes bus-collision, the busy
  flag is cleared and \<open>I2C_Start\<close> returns \<open>false\<close>, whatever the pending bits are in the
  read that shows the collision.
\<close>

theorem Start_collision_reported:
  assumes "\<not> I2C_IsBusy m s"
    and "k < unat (ucast (timeout_ms (I2C_Config s (I2C_GetConfig m)) * 1000) :: u32)"
    and "\<forall>j<k. spinning (s\<lparr>ticks := ticks s + 2\<rparr>) (I2C_GetModuleBase m) j"
    and "con_in s (I2C_GetModuleBase m) (ticks s + 2 + 3 * k) AND 0x1F \<noteq> 0"
    and "con_in s (I2C_GetModuleBase m) (ticks s + 2 + 3 * k + 1) AND 0x200 = 0"
    and "con_in s (I2C_GetModuleBase m) (ticks s + 2 + 3 * k + 2) AND 0x100 \<noteq> 0"
  shows "\<not> fst (I2C_Start m s) \<and>
         I2C_GetLastError m (snd (I2C_Start m s)) = I2C_STATE_BUS_COLLISION \<and>
         \<not> I2C_IsBusy m (snd (I2C_Start m s))"
proof -
  let ?u = "I2C_GetModuleBase m"
  let ?c = "ucast (timeout_ms (I2C_Config s (I2C_GetConfig m)) * 1000) :: u32"
  let ?s1 = "reg_modify ?u (ConOr 0x0001)
               (set_State (I2C_GetState m) I2C_STATE_BUSY (set_Busy (I2C_GetBusyFlag m) True s))"
  let ?s2 = "?s1\<lparr>ticks := ticks ?s1 + 3 * k\<rparr>"
  have t1: "ticks ?s1 = ticks s + 2" and c1: "con_in ?s1 = con_in s"
    by (simp_all add: upd_defs)
  have sp: "\<forall>j<k. spinning ?s1 ?u j"
    using assms(3) by (simp add: spinning_def upd_defs)
  have kc: "k \<le> unat ?c" using assms(2) by simp
  have nz: "?c - of_nat k \<noteq> 0"
  proof
    assume "?c - of_nat k = 0"
    then have "?c = of_nat k" by simp
    then have "unat ?c = unat (of_nat k :: u32)" by simp
    also have "\<dots> \<le> k" by (simp add: unat_of_nat)
    finally show False using assms(2) by simp
  qed
  have "wait_loop ?u (I2C_GetState m) ?c ?s1 = wait_loop ?u (I2C_GetState m) (?c - of_nat k) ?s2"
    by (rule wait_loop_spin [OF sp kc])
  also have "\<dots> = (False, set_State (I2C_GetState m) I2C_STATE_BUS_COLLISION
                          (?s2\<lparr>ticks := ticks ?s2 + 3\<rparr>))"
    using assms(4,5,6) nz by (intro wait_loop_collision) (simp_all add: upd_defs)
  finally have w: "I2C_WaitCondition m (timeout_ms (I2C_Config ?s1 (I2C_GetConfig m))) ?s1 =
      (False, set_State (I2C_GetState m) I2C_STATE_BUS_COLLISION (?s2\<lparr>ticks := ticks ?s2 + 3\<rparr>))"
    unfolding I2C_WaitCondition_def by (simp add: upd_defs)
  have nb: "\<not> I2C_Busy s (I2C_GetBusyFlag m)" using assms(1) by (simp add: I2C_IsBusy_def)
  have "I2C_Start m s =
     (False, set_Busy (I2C_GetBusyFlag m) False
        (set_State (I2C_GetState m) I2C_STATE_BUS_COLLISION (?s2\<lparr>ticks := ticks ?s2 + 3\<rparr>)))"
    unfolding I2C_Start_def Let_def using nb w by simp
  then show ?thesis by (simp add: I2C_GetLastError_def I2C_IsBusy_def upd_defs)
qed

theorem Start_collision_reported_witness:
  "\<not> I2C_IsBusy I2C_MODULE_1 (master_on late_collision_bus) \<and>
   con_in (master_on late_collision_bus) UNIT1 10 = 0x0001 \<and>
   con_in (master_on late_collision_bus) UNIT1 12 = 0x0100 \<and>
   \<not> fst (I2C_Start I2C_MODULE_1 (master_on late_collision_bus)) \<and>
   I2C_GetLastError I2C_MODULE_1 (snd (I2C_Start I2C_MODULE_1 (master_on late_collision_bus))) =
     I2C_STATE_BUS_COLLISION"
proof -
  have g: "I2C_GetModuleBase I2C_MODULE_1 = UNIT1" "I2C_GetConfig I2C_MODULE_1 = UNIT1"
    by (simp_all add: I2C_GetModuleBase_def I2C_GetConfig_def)
  have h1: "\<not> I2C_IsBusy I2C_MODULE_1 (master_on late_collision_bus)"
    by (simp add: eval_defs master_on_def late_collision_bus_def)
  have h2: "1 < unat (ucast (timeout_ms (I2C_Config (master_on late_collision_bus)
                (I2C_GetConfig I2C_MODULE_1)) * 1000) :: u32)"
    by (simp add: eval_defs master_on_def late_collision_bus_def)
  have h3: "\<forall>j<1. spinning ((master_on late_collision_bus)
                \<lparr>ticks := ticks (master_on late_collision_bus) + 2\<rparr>)
                (I2C_GetModuleBase I2C_MODULE_1) j"
    by (simp add: spinning_def eval_defs master_on_def late_collision_bus_def)
  have h4: "con_in (master_on late_collision_bus) (I2C_GetModuleBase I2C_MODULE_1)
              (ticks (master_on late_collision_bus) + 2 + 3 * 1) AND 0x1F \<noteq> 0"
    and h5: "con_in (master_on late_collision_bus) (I2C_GetModuleBase I2C_MODULE_1)
              (ticks (master_on late_collision_bus) + 2 + 3 * 1 + 1) AND 0x200 = 0"
    and h6: "con_in (master_on late_collision_bus) (I2C_GetModuleBase I2C_MODULE_1)
              (ticks (master_on late_collision_bus) + 2 + 3 * 1 + 2) AND 0x100 \<noteq> 0"
    by (simp_all add: eval_defs master_on_def late_collision_bus_def)
  have v: "con_in (master_on late_collision_bus) UNIT1 10 = 0x0001"
    "con_in (master_on late_collision_bus) UNIT1 12 = 0x0100"
    by (simp_all add: eval_defs master_on_def late_collision_bus_def)
  show ?thesis
    using h1 v Start_collision_reported [OF h1 h2 h3 h4 h5 h6] by blast
qed

text \<open>
  C2 as stated fails. On \<open>collided_bus\<close> the wait of \<open>I2C_Start\<close> begins at access 7. Its
  first pass finds the start pending and no error flag (accesses 7, 8, 9). At access 10, the
  loop condition of the second pass, the register reads \<open>0x0100\<close>: the collision flag is
  set and the pending bit has cleared. The loop condition ends the loop before the body
  has looked at the collision bit: \<open>I2C_Start\<close> returns \<open>true\<close> and the status stays busy.
\<close>

theorem Start_misses_collision:
  "ticks (master_on collided_bus) = 5 \<and>
   con_in (master_on collided_bus) UNIT1 7 = 0x0001 \<and>
   con_in (master_on collided_bus) UNIT1 10 = 0x0100 \<and>
   fst (I2C_Start I2C_MODULE_1 (master_on collided_bus)) \<and>
   ticks (snd (I2C_Start I2C_MODULE_1 (master_on collided_bus))) = 11 \<and>
   I2C_GetLastError I2C_MODULE_1 (snd (I2C_Start I2C_MODULE_1 (master_on collided_bus))) =
     I2C_STATE_BUSY"
  by (simp add: eval_defs master_on_def collided_bus_def)

text \<open>
  C3. The claim: the Timing Calculator clamps a value below 2 to 2 and never wraps. The
  code at \<open>fcy = 40000000\<close>, \<open>desired_speed = 20000000\<close>: the quotient is 1, the unsigned
  subtraction \<open>1 - 2\<close> wraps to \<open>0xFFFFFFFF\<close>, and the upper clamp turns it into 65535.
  The same happens at \<open>fcy = 1000000\<close> with the standard speed 400000.
\<close>

theorem CalculateBRG_wraps_below_two:
  "I2C_CalculateBRG 40000000 20000000 = 65535 \<and> I2C_CalculateBRG 1000000 400000 = 65535"
  by (simp add: I2C_CalculateBRG_def)

text \<open>
  C4. If the busy flag of the selected unit is set, \<open>I2C_Start\<close> returns \<open>false\<close> and
  leaves the whole state as it was: the busy flag and the status are unchanged, no
  register has been accessed (\<open>ticks\<close>), so the wait primitive has not polled once, and
  no register operation has been issued (\<open>oplog\<close>).
\<close>

theorem Start_while_busy:
  "I2C_IsBusy m s \<Longrightarrow> I2C_Start m s = (False, s)"
  by (simp add: I2C_Start_def I2C_IsBusy_def)

theorem Start_while_busy_witness:
  "I2C_IsBusy I2C_MODULE_2 (set_Busy UNIT2 True idle_bus) \<and>
   I2C_Start I2C_MODULE_2 (set_Busy UNIT2 True idle_bus) = (False, set_Busy UNIT2 True idle_bus)"
proof -
  have h: "I2C_IsBusy I2C_MODULE_2 (set_Busy UNIT2 True idle_bus)"
    by (simp add: I2C_IsBusy_def I2C_GetBusyFlag_def set_Busy_def I2C_MODULE_1_def
        I2C_MODULE_2_def)
  show ?thesis using h Start_while_busy [OF h] by simp
qed

text \<open>
  C5. The wait of \<open>I2C_Stop\<close> is the call of \<open>_I2C_WaitCondition\<close> that follows setting
  PEN. When that wait succeeds, \<open>I2C_Stop\<close> returns \<open>true\<close>, the busy flag is clear and the
  status is idle. When that wait fails, \<open>I2C_Stop\<close> returns \<open>false\<close>, every busy flag is
  as it was before the call, and the status is an error code, not idle. In both cases the
  one register operation of \<open>I2C_Stop\<close> is setting PEN. For \<open>I2C_WriteData\<close> with at least
  one byte whose start succeeded: the unit is busy when the trailing stop is issued (in
  the state \<open>WriteData_bytes\<close> reaches), the call succeeds only if all bytes and that stop
  succeeded, and afterwards \<open>I2C_IsBusy\<close> reports busy exactly if that stop failed.
\<close>

theorem Stop_busy_flag:
  "(fst (I2C_WaitCondition m (timeout_ms (I2C_Config s (I2C_GetConfig m)))
           (reg_modify (I2C_GetModuleBase m) (ConOr 0x0004) s)) \<longrightarrow>
      fst (I2C_Stop m s) \<and>
      \<not> I2C_IsBusy m (snd (I2C_Stop m s)) \<and>
      I2C_GetLastError m (snd (I2C_Stop m s)) = I2C_STATE_IDLE) \<and>
   (\<not> fst (I2C_WaitCondition m (timeout_ms (I2C_Config s (I2C_GetConfig m)))
           (reg_modify (I2C_GetModuleBase m) (ConOr 0x0004) s)) \<longrightarrow>
      \<not> fst (I2C_Stop m s) \<and>
      I2C_Busy (snd (I2C_Stop m s)) = I2C_Busy s \<and>
      I2C_GetLastError m (snd (I2C_Stop m s)) \<noteq> I2C_STATE_IDLE) \<and>
   oplog (snd (I2C_Stop m s)) = oplog s @ [I2CReg (I2C_GetModuleBase m) (ConOr 0x0004)] \<and>
   (len \<noteq> 0 \<and> fst (I2C_Start m s0) \<longrightarrow>
      I2C_IsBusy m (snd (WriteData_bytes m a d len s0)) \<and>
      I2C_WriteData m a (Some d) len s0 =
        (fst (WriteData_bytes m a d len s0) \<and>
           fst (I2C_Stop m (snd (WriteData_bytes m a d len s0))),
         snd (I2C_Stop m (snd (WriteData_bytes m a d len s0)))) \<and>
      I2C_IsBusy m (snd (I2C_WriteData m a (Some d) len s0)) =
        (\<not> fst (I2C_Stop m (snd (WriteData_bytes m a d len s0)))))"
proof (intro conjI impI)
  assume "fst (I2C_WaitCondition m (timeout_ms (I2C_Config s (I2C_GetConfig m)))
           (reg_modify (I2C_GetModuleBase m) (ConOr 0x0004) s))"
  then have ok: "fst (I2C_Stop m s)" by (simp add: Stop_result)
  show "fst (I2C_Stop m s)" by (rule ok)
  show "\<not> I2C_IsBusy m (snd (I2C_Stop m s))"
    and "I2C_GetLastError m (snd (I2C_Stop m s)) = I2C_STATE_IDLE"
    using Stop_success [OF ok] by simp_all
next
  assume "\<not> fst (I2C_WaitCondition m (timeout_ms (I2C_Config s (I2C_GetConfig m)))
           (reg_modify (I2C_GetModuleBase m) (ConOr 0x0004) s))"
  then have f: "\<not> fst (I2C_Stop m s)" by (simp add: Stop_result)
  show "\<not> fst (I2C_Stop m s)" by (rule f)
  show "I2C_Busy (snd (I2C_Stop m s)) = I2C_Busy s" by (rule Stop_failure(1) [OF f])
  show "I2C_GetLastError m (snd (I2C_Stop m s)) \<noteq> I2C_STATE_IDLE"
    using Stop_failure(2) [OF f] by auto
next
  show "oplog (snd (I2C_Stop m s)) = oplog s @ [I2CReg (I2C_GetModuleBase m) (ConOr 0x0004)]"
    by (rule Stop_oplog)
next
  assume a: "len \<noteq> 0 \<and> fst (I2C_Start m s0)"
  let ?s2 = "snd (WriteData_bytes m a d len s0)"
  show eq: "I2C_WriteData m a (Some d) len s0 =
        (fst (WriteData_bytes m a d len s0) \<and> fst (I2C_Stop m ?s2), snd (I2C_Stop m ?s2))"
    using a by (intro WriteData_by_bytes) simp_all
  show busy: "I2C_IsBusy m ?s2" using a by (intro WriteData_bytes_Busy) simp
  show "I2C_IsBusy m (snd (I2C_WriteData m a (Some d) len s0)) = (\<not> fst (I2C_Stop m ?s2))"
  proof (cases "fst (I2C_Stop m ?s2)")
    case True
    then show ?thesis unfolding eq using Stop_success [OF True] by simp
  next
    case False
    then show ?thesis unfolding eq using Stop_failure(1) [OF False] busy
      by (simp add: I2C_IsBusy_def)
  qed
qed

theorem Stop_busy_flag_witness:
  "I2C_IsBusy I2C_MODULE_1 (snd (I2C_Start I2C_MODULE_1 (master_on idle_bus))) \<and>
   fst (I2C_Stop I2C_MODULE_1 (snd (I2C_Start I2C_MODULE_1 (master_on idle_bus)))) \<and>
   \<not> I2C_IsBusy I2C_MODULE_1
       (snd (I2C_Stop I2C_MODULE_1 (snd (I2C_Start I2C_MODULE_1 (master_on idle_bus))))) \<and>
   fst (I2C_Start I2C_MODULE_1 (master_on stop_fails_bus)) \<and>
   I2C_IsBusy I2C_MODULE_1
     (snd (WriteData_bytes I2C_MODULE_1 0x50 (\<lambda>i. 7) 1 (master_on stop_fails_bus))) \<and>
   \<not> fst (I2C_Stop I2C_MODULE_1
            (snd (WriteData_bytes I2C_MODULE_1 0x50 (\<lambda>i. 7) 1 (master_on stop_fails_bus)))) \<and>
   \<not> fst (I2C_WriteData I2C_MODULE_1 0x50 (Some (\<lambda>i. 7)) 1 (master_on stop_fails_bus)) \<and>
   I2C_IsBusy I2C_MODULE_1
     (snd (I2C_WriteData I2C_MODULE_1 0x50 (Some (\<lambda>i. 7)) 1 (master_on stop_fails_bus))) \<and>
   fst (I2C_Start I2C_MODULE_1 (master_on idle_bus)) \<and>
   fst (I2C_WriteData I2C_MODULE_1 0x50 (Some (\<lambda>i. 7)) 1 (master_on idle_bus)) \<and>
   \<not> I2C_IsBusy I2C_MODULE_1
     (snd (I2C_WriteData I2C_MODULE_1 0x50 (Some (\<lambda>i. 7)) 1 (master_on idle_bus)))"
proof -
  let ?sb = "snd (I2C_Start I2C_MODULE_1 (master_on idle_bus))"
  let ?sf = "snd (WriteData_bytes I2C_MODULE_1 0x50 (\<lambda>i. 7) 1 (master_on stop_fails_bus))"
  let ?si = "snd (WriteData_bytes I2C_MODULE_1 0x50 (\<lambda>i. 7) 1 (master_on idle_bus))"
  have b0: "I2C_IsBusy I2C_MODULE_1 ?sb"
    by (simp add: eval_defs master_on_def idle_bus_def)
  have h1: "fst (I2C_WaitCondition I2C_MODULE_1
                  (timeout_ms (I2C_Config ?sb (I2C_GetConfig I2C_MODULE_1)))
                  (reg_modify (I2C_GetModuleBase I2C_MODULE_1) (ConOr 0x0004) ?sb))"
    by (simp add: eval_defs master_on_def idle_bus_def)
  have h2: "fst (I2C_Start I2C_MODULE_1 (master_on stop_fails_bus))"
    by (simp add: eval_defs master_on_def stop_fails_bus_def)
  have h3: "\<not> fst (I2C_WaitCondition I2C_MODULE_1
                  (timeout_ms (I2C_Config ?sf (I2C_GetConfig I2C_MODULE_1)))
                  (reg_modify (I2C_GetModuleBase I2C_MODULE_1) (ConOr 0x0004) ?sf))"
    by (simp add: eval_defs master_on_def stop_fails_bus_def)
  have h4: "fst (I2C_Start I2C_MODULE_1 (master_on idle_bus))"
    by (simp add: eval_defs master_on_def idle_bus_def)
  have h5: "fst (WriteData_bytes I2C_MODULE_1 0x50 (\<lambda>i. 7) 1 (master_on idle_bus))"
    by (simp add: eval_defs master_on_def idle_bus_def)
  have h6: "fst (I2C_WaitCondition I2C_MODULE_1
                  (timeout_ms (I2C_Config ?si (I2C_GetConfig I2C_MODULE_1)))
                  (reg_modify (I2C_GetModuleBase I2C_MODULE_1) (ConOr 0x0004) ?si))"
    by (simp add: eval_defs master_on_def idle_bus_def)
  have n: "(1::u8) \<noteq> 0" by simp
  note A = Stop_busy_flag [of I2C_MODULE_1 ?sb 1 "master_on idle_bus" "0x50" "\<lambda>i. 7"]
  note B = Stop_busy_flag [of I2C_MODULE_1 ?sf 1 "master_on stop_fails_bus" "0x50" "\<lambda>i. 7"]
  note C = Stop_busy_flag [of I2C_MODULE_1 ?si 1 "master_on idle_bus" "0x50" "\<lambda>i. 7"]
  have a1: "fst (I2C_Stop I2C_MODULE_1 ?sb) \<and> \<not> I2C_IsBusy I2C_MODULE_1 (snd (I2C_Stop I2C_MODULE_1 ?sb))"
    using A h1 by blast
  have b1: "\<not> fst (I2C_Stop I2C_MODULE_1 ?sf)" using B h3 by blast
  have b2: "I2C_IsBusy I2C_MODULE_1 ?sf \<and>
      I2C_WriteData I2C_MODULE_1 0x50 (Some (\<lambda>i. 7)) 1 (master_on stop_fails_bus) =
        (fst (WriteData_bytes I2C_MODULE_1 0x50 (\<lambda>i. 7) 1 (master_on stop_fails_bus)) \<and>
           fst (I2C_Stop I2C_MODULE_1 ?sf), snd (I2C_Stop I2C_MODULE_1 ?sf)) \<and>
      I2C_IsBusy I2C_MODULE_1
        (snd (I2C_WriteData I2C_MODULE_1 0x50 (Some (\<lambda>i. 7)) 1 (master_on stop_fails_bus))) =
        (\<not> fst (I2C_Stop I2C_MODULE_1 ?sf))"
    using B n h2 by blast
  have c1: "fst (I2C_Stop I2C_MODULE_1 ?si)" using C h6 by blast
  have c2: "I2C_WriteData I2C_MODULE_1 0x50 (Some (\<lambda>i. 7)) 1 (master_on idle_bus) =
        (fst (WriteData_bytes I2C_MODULE_1 0x50 (\<lambda>i. 7) 1 (master_on idle_bus)) \<and>
           fst (I2C_Stop I2C_MODULE_1 ?si), snd (I2C_Stop I2C_MODULE_1 ?si)) \<and>
      I2C_IsBusy I2C_MODULE_1
        (snd (I2C_WriteData I2C_MODULE_1 0x50 (Some (\<lambda>i. 7)) 1 (master_on idle_bus))) =
        (\<not> fst (I2C_Stop I2C_MODULE_1 ?si))"
    using C n h4 by blast
  have b3: "\<not> fst (I2C_WriteData I2C_MODULE_1 0x50 (Some (\<lambda>i. 7)) 1 (master_on stop_fails_bus))"
    using b2 b1 by simp
  have c3: "fst (I2C_WriteData I2C_MODULE_1 0x50 (Some (\<lambda>i. 7)) 1 (master_on idle_bus))"
    using c2 c1 h5 by simp
  show ?thesis using b0 a1 h2 b1 b2 b3 h4 c1 c2 c3 by blast
qed




text \<open>
  C7, as amended. For a byte count \<open>len\<close> of at least 1, when the start succeeds and the
  address byte is sent and acknowledged (\<open>I2C_WriteByte\<close> succeeds),
  the register operations of \<open>I2C_ReadData\<close> are, in order: the start (SEN set); the
  address byte \<open>address << 1 | 1\<close> loaded and sent; \<open>len\<close> calls of \<open>I2C_ReadByte\<close>, the
  first \<open>len - 1\<close> with acknowledge and the last one, and only that one, with negative
  acknowledge; the stop (PEN set).
\<close>

theorem ReadData_sequence:
  assumes "len \<noteq> 0"
    and "fst (I2C_Start m s)"
    and "fst (I2C_WriteByte m (push_bit 1 a OR 0x01) (snd (I2C_Start m s)))"
  shows "oplog (snd (snd (I2C_ReadData m a (Some buf) len s))) =
     oplog s @
     [I2CReg (I2C_GetModuleBase m) (ConOr 0x0001),
      I2CReg (I2C_GetModuleBase m) (TrnAssign (ucast (push_bit 1 a OR 0x01 :: u8))),
      I2CReg (I2C_GetModuleBase m) (ConOr 0x0008)] @
     concat (map (ReadByte_ops (I2C_GetModuleBase m)) (replicate (unat len - 1) True @ [False])) @
     [I2CReg (I2C_GetModuleBase m) (ConOr 0x0004)]"
proof -
  let ?b = "push_bit 1 a OR 0x01 :: u8"
  let ?s1 = "snd (I2C_Start m s)"
  let ?s2 = "snd (I2C_WriteByte m ?b ?s1)"
  let ?s3 = "snd (ReadData_loop m len 0 buf ?s2)"
  have n: "0 < unat len" using assms(1) by (simp add: unat_gt_0)
  have "I2C_Start m s = (True, ?s1)" using assms(2) by (simp add: prod_eq_iff)
  then have l1: "oplog ?s1 = oplog s @ [I2CReg (I2C_GetModuleBase m) (ConOr 0x0001)]"
    by (rule Start_success(2))
  have l2: "oplog ?s2 = oplog ?s1 @
      [I2CReg (I2C_GetModuleBase m) (TrnAssign (ucast ?b)),
       I2CReg (I2C_GetModuleBase m) (ConOr 0x0008)]"
    by (rule WriteByte_frame(2))
  have "map (\<lambda>j. ReadByte_ops (I2C_GetModuleBase m) (Suc j < unat len)) [0..<unat len] =
        map (ReadByte_ops (I2C_GetModuleBase m)) (map (\<lambda>j. Suc j < unat len) [0..<unat len])"
    by simp
  also have "\<dots> = map (ReadByte_ops (I2C_GetModuleBase m)) (replicate (unat len - 1) True @ [False])"
    by (simp only: acks_of_read [OF n])
  finally have l3: "oplog ?s3 = oplog ?s2 @
      concat (map (ReadByte_ops (I2C_GetModuleBase m)) (replicate (unat len - 1) True @ [False]))"
    using ReadData_loop_oplog [of m len 0 buf ?s2] by simp
  have eq: "snd (snd (I2C_ReadData m a (Some buf) len s)) = snd (I2C_Stop m ?s3)"
    using ReadData_unfold [OF assms(1,2), of a buf] assms(3) by simp
  show ?thesis unfolding eq Stop_oplog l3 l2 l1 by simp
qed

theorem ReadData_sequence_witness:
  "fst (I2C_Start I2C_MODULE_1 (master_on idle_bus)) \<and>
   fst (I2C_WriteByte I2C_MODULE_1 (push_bit 1 0x50 OR 0x01)
          (snd (I2C_Start I2C_MODULE_1 (master_on idle_bus)))) \<and>
   oplog (snd (snd (I2C_ReadData I2C_MODULE_1 0x50 (Some (\<lambda>i. 0)) 3 (master_on idle_bus)))) =
     oplog (master_on idle_bus) @
     [I2CReg UNIT1 (ConOr 0x0001), I2CReg UNIT1 (TrnAssign 0xA1), I2CReg UNIT1 (ConOr 0x0008),
      I2CReg UNIT1 (ConAnd 0xFFEF), I2CReg UNIT1 (ConOr 0x0008),
      I2CReg UNIT1 (ConAnd 0xFFEF), I2CReg UNIT1 (ConOr 0x0008),
      I2CReg UNIT1 (ConOr 0x0010), I2CReg UNIT1 (ConOr 0x0008),
      I2CReg UNIT1 (ConOr 0x0004)]"
proof -
  have h1: "fst (I2C_Start I2C_MODULE_1 (master_on idle_bus))"
    by (simp add: eval_defs master_on_def idle_bus_def)
  have h2: "fst (I2C_WriteByte I2C_MODULE_1 (push_bit 1 0x50 OR 0x01)
            (snd (I2C_Start I2C_MODULE_1 (master_on idle_bus))))"
    by (simp add: eval_defs master_on_def idle_bus_def)
  have n: "(3::u8) \<noteq> 0" by simp
  have g: "I2C_GetModuleBase I2C_MODULE_1 = UNIT1" by (simp add: I2C_GetModuleBase_def)
  have "unat (3::u8) - 1 = Suc (Suc 0)" by simp
  then have r: "replicate (unat (3::u8) - 1) True = [True, True]" by (simp only: replicate.simps)
  show ?thesis
    using h1 h2 ReadData_sequence [OF n h1 h2, of "\<lambda>i. 0"]
    unfolding g r by (simp add: ReadByte_ops_def)
qed

text \<open>
  C7 as stated fails. On a unit that is busy (a transaction has been started and not
  stopped), \<open>I2C_ReadData\<close> for 3 bytes returns \<open>false\<close> and changes nothing: no start, no
  byte read, no negative acknowledge, no stop. On \<open>nack_bus\<close>, where the address byte is not
  acknowledged, it issues the start, the address byte and the stop, and reads no byte.
\<close>

theorem ReadData_without_reads:
  "I2C_IsBusy I2C_MODULE_1 (snd (I2C_Start I2C_MODULE_1 (master_on idle_bus))) \<and>
   I2C_ReadData I2C_MODULE_1 0x50 (Some (\<lambda>i. 0)) 3
       (snd (I2C_Start I2C_MODULE_1 (master_on idle_bus))) =
     (False, Some (\<lambda>i. 0), snd (I2C_Start I2C_MODULE_1 (master_on idle_bus))) \<and>
   \<not> fst (I2C_ReadData I2C_MODULE_1 0x50 (Some (\<lambda>i. 0)) 3 (master_on nack_bus)) \<and>
   oplog (snd (snd (I2C_ReadData I2C_MODULE_1 0x50 (Some (\<lambda>i. 0)) 3 (master_on nack_bus)))) =
     oplog (master_on nack_bus) @
     [I2CReg UNIT1 (ConOr 0x0001), I2CReg UNIT1 (TrnAssign 0xA1), I2CReg UNIT1 (ConOr 0x0008),
      I2CReg UNIT1 (ConOr 0x0004)]"
  by (simp add: eval_defs master_on_def idle_bus_def nack_bus_def)

text \<open>
  C8, as amended. For the two valid selectors each accessor resolves to that unit; every
  other selector value resolves, through the \<open>default\<close> branch, to unit 1.
\<close>

theorem accessors_resolve:
  "I2C_GetModuleBase I2C_MODULE_1 = UNIT1 \<and> I2C_GetModuleBase I2C_MODULE_2 = UNIT2 \<and>
   I2C_GetState I2C_MODULE_1 = UNIT1 \<and> I2C_GetState I2C_MODULE_2 = UNIT2 \<and>
   I2C_GetBusyFlag I2C_MODULE_1 = UNIT1 \<and> I2C_GetBusyFlag I2C_MODULE_2 = UNIT2 \<and>
   I2C_GetConfig I2C_MODULE_1 = UNIT1 \<and> I2C_GetConfig I2C_MODULE_2 = UNIT2 \<and>
   (m \<noteq> I2C_MODULE_1 \<and> m \<noteq> I2C_MODULE_2 \<longrightarrow>
      I2C_GetModuleBase m = UNIT1 \<and> I2C_GetState m = UNIT1 \<and>
      I2C_GetBusyFlag m = UNIT1 \<and> I2C_GetConfig m = UNIT1)"
  by (simp add: I2C_GetModuleBase_def I2C_GetState_def I2C_GetBusyFlag_def I2C_GetConfig_def
      I2C_MODULE_1_def I2C_MODULE_2_def)

theorem accessors_resolve_witness:
  "(0::int) \<noteq> I2C_MODULE_1 \<and> 0 \<noteq> I2C_MODULE_2 \<and>
   I2C_GetModuleBase 0 = UNIT1 \<and> I2C_GetState 0 = UNIT1 \<and>
   I2C_GetBusyFlag 0 = UNIT1 \<and> I2C_GetConfig 0 = UNIT1"
  using accessors_resolve [of 0] by (simp add: I2C_MODULE_1_def I2C_MODULE_2_def)

text \<open>C8 as stated fails: the selector 3 is neither of the two valid values, and all
  four accessors resolve it to unit 1, so an operation on selector 3 reads and writes the
  state of unit 1.\<close>

theorem invalid_selector_aliases_unit1:
  "3 \<noteq> I2C_MODULE_1 \<and> 3 \<noteq> I2C_MODULE_2 \<and>
   I2C_GetModuleBase 3 = I2C_GetModuleBase I2C_MODULE_1 \<and>
   I2C_GetState 3 = I2C_GetState I2C_MODULE_1 \<and>
   I2C_GetBusyFlag 3 = I2C_GetBusyFlag I2C_MODULE_1 \<and>
   I2C_GetConfig 3 = I2C_GetConfig I2C_MODULE_1 \<and>
   I2C_IsBusy 3 (set_Busy UNIT1 True idle_bus)"
  by (simp add: I2C_GetModuleBase_def I2C_GetState_def I2C_GetBusyFlag_def I2C_GetConfig_def
      I2C_MODULE_1_def I2C_MODULE_2_def I2C_IsBusy_def set_Busy_def)

text \<open>
  C9. No driver call changes a unit's status to \<open>I2C_STATE_ADDR_NACK\<close>, and from program
  start no sequence of driver calls reaches that status. A failed \<open>I2C_WriteByte\<close> leaves
  one of timeout, data-NACK, bus-collision or overrun as the status, and a byte that is
  answered with a negative acknowledge makes \<open>I2C_WriteByte\<close> fail with the status
  data-NACK. \<open>I2C_WriteData\<close>, \<open>I2C_ReadData\<close> and \<open>I2C_CheckDevice\<close> send the address byte
  with that same \<open>I2C_WriteByte\<close>: when the address byte is answered with a negative
  acknowledge after a successful start, the status recorded is data-NACK, as for a data
  byte, and the operation fails and goes on to the stop from that state.
\<close>

theorem ADDR_NACK_never_set:
  "(I2C_State (call c s) u = I2C_STATE_ADDR_NACK \<longrightarrow> I2C_State s u = I2C_STATE_ADDR_NACK) \<and>
   I2C_GetLastError m (run calls (power_on con stat rcv)) \<noteq> I2C_STATE_ADDR_NACK \<and>
   (\<not> fst (I2C_WriteByte m b s') \<longrightarrow>
      I2C_GetLastError m (snd (I2C_WriteByte m b s')) \<in>
        {I2C_STATE_TIMEOUT, I2C_STATE_DATA_NACK, I2C_STATE_BUS_COLLISION, I2C_STATE_OVERRUN}) \<and>
   (nacked m b s' \<longrightarrow>
      \<not> fst (I2C_WriteByte m b s') \<and>
      I2C_GetLastError m (snd (I2C_WriteByte m b s')) = I2C_STATE_DATA_NACK) \<and>
   (len \<noteq> 0 \<and> fst (I2C_Start m s0) \<and>
    nacked m (push_bit 1 a OR 0x00) (snd (I2C_Start m s0)) \<longrightarrow>
      I2C_GetLastError m (snd (I2C_WriteByte m (push_bit 1 a OR 0x00) (snd (I2C_Start m s0)))) =
        I2C_STATE_DATA_NACK \<and>
      I2C_WriteData m a (Some d) len s0 =
        (False, snd (I2C_Stop m
                  (snd (I2C_WriteByte m (push_bit 1 a OR 0x00) (snd (I2C_Start m s0))))))) \<and>
   (len \<noteq> 0 \<and> fst (I2C_Start m s0) \<and>
    nacked m (push_bit 1 a OR 0x01) (snd (I2C_Start m s0)) \<longrightarrow>
      I2C_GetLastError m (snd (I2C_WriteByte m (push_bit 1 a OR 0x01) (snd (I2C_Start m s0)))) =
        I2C_STATE_DATA_NACK \<and>
      I2C_ReadData m a (Some buf) len s0 =
        (False, Some buf,
         snd (I2C_Stop m
                (snd (I2C_WriteByte m (push_bit 1 a OR 0x01) (snd (I2C_Start m s0))))))) \<and>
   (fst (I2C_Start m s0) \<and> nacked m (push_bit 1 a OR 0x00) (snd (I2C_Start m s0)) \<longrightarrow>
      I2C_GetLastError m (snd (I2C_WriteByte m (push_bit 1 a OR 0x00) (snd (I2C_Start m s0)))) =
        I2C_STATE_DATA_NACK \<and>
      I2C_CheckDevice m a s0 =
        (False, snd (I2C_Stop m
                  (snd (I2C_WriteByte m (push_bit 1 a OR 0x00) (snd (I2C_Start m s0)))))))"
proof -
  have nack: "\<not> fst (I2C_WriteByte m x t) \<and>
      I2C_GetLastError m (snd (I2C_WriteByte m x t)) = I2C_STATE_DATA_NACK"
    if "nacked m x t" for x t
    using that WriteByte_nack [of m t x] by (simp add: nacked_def)
  have p1: "I2C_State (call c s) u = I2C_STATE_ADDR_NACK \<longrightarrow>
      I2C_State s u = I2C_STATE_ADDR_NACK"
    using status_step_ADDR_NACK [OF call_step] by blast
  have p2: "I2C_GetLastError m (run calls (power_on con stat rcv)) \<noteq> I2C_STATE_ADDR_NACK"
  proof
    assume "I2C_GetLastError m (run calls (power_on con stat rcv)) = I2C_STATE_ADDR_NACK"
    then have "I2C_State (power_on con stat rcv) (I2C_GetState m) = I2C_STATE_ADDR_NACK"
      unfolding I2C_GetLastError_def using status_step_ADDR_NACK [OF run_step] by blast
    then show False by (simp add: power_on_def)
  qed
  have p3: "\<not> fst (I2C_WriteByte m b s') \<longrightarrow>
      I2C_GetLastError m (snd (I2C_WriteByte m b s')) \<in>
        {I2C_STATE_TIMEOUT, I2C_STATE_DATA_NACK, I2C_STATE_BUS_COLLISION, I2C_STATE_OVERRUN}"
    using WriteByte_failure_codes by blast
  have p4: "nacked m b s' \<longrightarrow>
      \<not> fst (I2C_WriteByte m b s') \<and>
      I2C_GetLastError m (snd (I2C_WriteByte m b s')) = I2C_STATE_DATA_NACK"
    using nack by blast
  have p5: "len \<noteq> 0 \<and> fst (I2C_Start m s0) \<and>
    nacked m (push_bit 1 a OR 0x00) (snd (I2C_Start m s0)) \<longrightarrow>
      I2C_GetLastError m (snd (I2C_WriteByte m (push_bit 1 a OR 0x00) (snd (I2C_Start m s0)))) =
        I2C_STATE_DATA_NACK \<and>
      I2C_WriteData m a (Some d) len s0 =
        (False, snd (I2C_Stop m
                  (snd (I2C_WriteByte m (push_bit 1 a OR 0x00) (snd (I2C_Start m s0))))))"
    using nack [of "push_bit 1 a OR 0x00" "snd (I2C_Start m s0)"]
      WriteData_address_fails [of len m s0 a d] by blast
  have p6: "len \<noteq> 0 \<and> fst (I2C_Start m s0) \<and>
    nacked m (push_bit 1 a OR 0x01) (snd (I2C_Start m s0)) \<longrightarrow>
      I2C_GetLastError m (snd (I2C_WriteByte m (push_bit 1 a OR 0x01) (snd (I2C_Start m s0)))) =
        I2C_STATE_DATA_NACK \<and>
      I2C_ReadData m a (Some buf) len s0 =
        (False, Some buf,
         snd (I2C_Stop m
                (snd (I2C_WriteByte m (push_bit 1 a OR 0x01) (snd (I2C_Start m s0))))))"
  proof (intro impI)
    assume h: "len \<noteq> 0 \<and> fst (I2C_Start m s0) \<and>
      nacked m (push_bit 1 a OR 0x01) (snd (I2C_Start m s0))"
    then have f: "\<not> fst (I2C_WriteByte m (push_bit 1 a OR 0x01) (snd (I2C_Start m s0)))"
      and g: "I2C_GetLastError m (snd (I2C_WriteByte m (push_bit 1 a OR 0x01)
                (snd (I2C_Start m s0)))) = I2C_STATE_DATA_NACK"
      using nack [of "push_bit 1 a OR 0x01" "snd (I2C_Start m s0)"] by blast+
    have "I2C_ReadData m a (Some buf) len s0 =
        (False, Some buf,
         snd (I2C_Stop m
                (snd (I2C_WriteByte m (push_bit 1 a OR 0x01) (snd (I2C_Start m s0))))))"
      using ReadData_unfold [of len m s0 a buf] h f by simp
    with g show "I2C_GetLastError m (snd (I2C_WriteByte m (push_bit 1 a OR 0x01)
                (snd (I2C_Start m s0)))) = I2C_STATE_DATA_NACK \<and>
      I2C_ReadData m a (Some buf) len s0 =
        (False, Some buf,
         snd (I2C_Stop m
                (snd (I2C_WriteByte m (push_bit 1 a OR 0x01) (snd (I2C_Start m s0))))))"
      by blast
  qed
  have p7: "fst (I2C_Start m s0) \<and> nacked m (push_bit 1 a OR 0x00) (snd (I2C_Start m s0)) \<longrightarrow>
      I2C_GetLastError m (snd (I2C_WriteByte m (push_bit 1 a OR 0x00) (snd (I2C_Start m s0)))) =
        I2C_STATE_DATA_NACK \<and>
      I2C_CheckDevice m a s0 =
        (False, snd (I2C_Stop m
                  (snd (I2C_WriteByte m (push_bit 1 a OR 0x00) (snd (I2C_Start m s0))))))"
  proof (intro impI)
    assume h: "fst (I2C_Start m s0) \<and> nacked m (push_bit 1 a OR 0x00) (snd (I2C_Start m s0))"
    then have f: "\<not> fst (I2C_WriteByte m (push_bit 1 a OR 0x00) (snd (I2C_Start m s0)))"
      and g: "I2C_GetLastError m (snd (I2C_WriteByte m (push_bit 1 a OR 0x00)
                (snd (I2C_Start m s0)))) = I2C_STATE_DATA_NACK"
      using nack [of "push_bit 1 a OR 0x00" "snd (I2C_Start m s0)"] by blast+
    have "I2C_CheckDevice m a s0 =
        (fst (I2C_WriteByte m (push_bit 1 a OR 0x00) (snd (I2C_Start m s0))),
         snd (I2C_Stop m (snd (I2C_WriteByte m (push_bit 1 a OR 0x00) (snd (I2C_Start m s0))))))"
      using h by (intro CheckDevice_unfold) simp
    with f g show "I2C_GetLastError m (snd (I2C_WriteByte m (push_bit 1 a OR 0x00)
                (snd (I2C_Start m s0)))) = I2C_STATE_DATA_NACK \<and>
      I2C_CheckDevice m a s0 =
        (False, snd (I2C_Stop m
                  (snd (I2C_WriteByte m (push_bit 1 a OR 0x00) (snd (I2C_Start m s0))))))"
      by simp
  qed
  from p1 p2 p3 p4 p5 p6 p7 show ?thesis by blast
qed

theorem ADDR_NACK_never_set_witness:
  "I2C_State (call (Call_SetCallback I2C_MODULE_1 None)
      (set_State UNIT1 I2C_STATE_ADDR_NACK idle_bus)) UNIT1 = I2C_STATE_ADDR_NACK \<and>
   I2C_State (set_State UNIT1 I2C_STATE_ADDR_NACK idle_bus) UNIT1 = I2C_STATE_ADDR_NACK \<and>
   fst (I2C_Start I2C_MODULE_1 (master_on nack_bus)) \<and>
   nacked I2C_MODULE_1 (push_bit 1 0x50 OR 0x00) (snd (I2C_Start I2C_MODULE_1 (master_on nack_bus))) \<and>
   nacked I2C_MODULE_1 (push_bit 1 0x50 OR 0x01) (snd (I2C_Start I2C_MODULE_1 (master_on nack_bus))) \<and>
   \<not> fst (I2C_WriteByte I2C_MODULE_1 (push_bit 1 0x50 OR 0x00)
            (snd (I2C_Start I2C_MODULE_1 (master_on nack_bus)))) \<and>
   I2C_GetLastError I2C_MODULE_1
     (snd (I2C_WriteByte I2C_MODULE_1 (push_bit 1 0x50 OR 0x00)
            (snd (I2C_Start I2C_MODULE_1 (master_on nack_bus))))) = I2C_STATE_DATA_NACK \<and>
   \<not> fst (I2C_WriteData I2C_MODULE_1 0x50 (Some (\<lambda>i. 7)) 3 (master_on nack_bus)) \<and>
   \<not> fst (I2C_ReadData I2C_MODULE_1 0x50 (Some (\<lambda>i. 0)) 3 (master_on nack_bus)) \<and>
   \<not> fst (I2C_CheckDevice I2C_MODULE_1 0x50 (master_on nack_bus))"
proof -
  let ?s1 = "snd (I2C_Start I2C_MODULE_1 (master_on nack_bus))"
  have h1: "I2C_State (call (Call_SetCallback I2C_MODULE_1 None)
      (set_State UNIT1 I2C_STATE_ADDR_NACK idle_bus)) UNIT1 = I2C_STATE_ADDR_NACK"
    by (simp add: I2C_SetCallback_def I2C_MODULE_1_def upd_defs)
  have h2: "fst (I2C_Start I2C_MODULE_1 (master_on nack_bus))"
    by (simp add: eval_defs master_on_def nack_bus_def)
  have h3: "nacked I2C_MODULE_1 (push_bit 1 0x50 OR 0x00) ?s1"
    by (simp add: nacked_def eval_defs master_on_def nack_bus_def)
  have h4: "nacked I2C_MODULE_1 (push_bit 1 0x50 OR 0x01) ?s1"
    by (simp add: nacked_def eval_defs master_on_def nack_bus_def)
  have n: "(3::u8) \<noteq> 0" by simp
  note T = ADDR_NACK_never_set
      [of "Call_SetCallback I2C_MODULE_1 None" "set_State UNIT1 I2C_STATE_ADDR_NACK idle_bus"
        UNIT1 I2C_MODULE_1 "[]" "\<lambda>u t. 0" "\<lambda>u t. 0" "\<lambda>u t. 0" "push_bit 1 0x50 OR 0x00"
        ?s1 3 "master_on nack_bus" "0x50" "\<lambda>i. 7" "\<lambda>i. 0"]
  have a: "I2C_State (set_State UNIT1 I2C_STATE_ADDR_NACK idle_bus) UNIT1 = I2C_STATE_ADDR_NACK"
    using T h1 by blast
  have b: "\<not> fst (I2C_WriteByte I2C_MODULE_1 (push_bit 1 0x50 OR 0x00) ?s1) \<and>
      I2C_GetLastError I2C_MODULE_1 (snd (I2C_WriteByte I2C_MODULE_1 (push_bit 1 0x50 OR 0x00) ?s1))
        = I2C_STATE_DATA_NACK"
    using T h3 by blast
  have c: "I2C_WriteData I2C_MODULE_1 0x50 (Some (\<lambda>i. 7)) 3 (master_on nack_bus) =
      (False, snd (I2C_Stop I2C_MODULE_1
                (snd (I2C_WriteByte I2C_MODULE_1 (push_bit 1 0x50 OR 0x00) ?s1))))"
    using T n h2 h3 by blast
  have d: "I2C_ReadData I2C_MODULE_1 0x50 (Some (\<lambda>i. 0)) 3 (master_on nack_bus) =
      (False, Some (\<lambda>i. 0), snd (I2C_Stop I2C_MODULE_1
                (snd (I2C_WriteByte I2C_MODULE_1 (push_bit 1 0x50 OR 0x01) ?s1))))"
    using T n h2 h4 by blast
  have e: "I2C_CheckDevice I2C_MODULE_1 0x50 (master_on nack_bus) =
      (False, snd (I2C_Stop I2C_MODULE_1
                (snd (I2C_WriteByte I2C_MODULE_1 (push_bit 1 0x50 OR 0x00) ?s1))))"
    using T h2 h3 by blast
  have c': "\<not> fst (I2C_WriteData I2C_MODULE_1 0x50 (Some (\<lambda>i. 7)) 3 (master_on nack_bus))"
    unfolding c by simp
  have d': "\<not> fst (I2C_ReadData I2C_MODULE_1 0x50 (Some (\<lambda>i. 0)) 3 (master_on nack_bus))"
    unfolding d by simp
  have e': "\<not> fst (I2C_CheckDevice I2C_MODULE_1 0x50 (master_on nack_bus))"
    unfolding e by simp
  show ?thesis using h1 a h2 h3 h4 b c' d' e' by blast
qed

text \<open>
  C10. \<open>I2C_WriteData\<close> with a length of 0 or a \<open>NULL\<close> data pointer, and \<open>I2C_ReadData\<close>
  with a length of 0 or a \<open>NULL\<close> buffer, return \<open>false\<close> and leave the state as it was:
  busy flag and status unchanged, no register accessed, no register operation issued.
\<close>

theorem WriteData_ReadData_reject_empty:
  "(len = 0 \<or> data = None \<longrightarrow> I2C_WriteData m address data len s = (False, s)) \<and>
   (len = 0 \<or> buffer = None \<longrightarrow> I2C_ReadData m address buffer len s = (False, buffer, s))"
  by (simp add: I2C_WriteData_def I2C_ReadData_def)

theorem WriteData_ReadData_reject_empty_witness:
  "I2C_WriteData I2C_MODULE_1 0x50 None 4 idle_bus = (False, idle_bus) \<and>
   I2C_ReadData I2C_MODULE_1 0x50 (Some (\<lambda>i. 0)) 0 idle_bus = (False, Some (\<lambda>i. 0), idle_bus)"
  using WriteData_ReadData_reject_empty
          [of 4 None I2C_MODULE_1 "0x50" idle_bus "Some (\<lambda>i. 0)"]
        WriteData_ReadData_reject_empty
          [of 0 "Some (\<lambda>i. 0)" I2C_MODULE_1 "0x50" idle_bus "Some (\<lambda>i. 0)"]
  by simp

end
